theory Spec2Isabelle
  imports Main "HOL-Library.Sublist"
begin

section \<open>JavaScript strings\<close>

text \<open>
  The program is the class \<open>CodeManager\<close> of \<open>src/codeManager.ts\<close>. Its strings are
  modelled as \<^typ>\<open>string\<close>, one \<^typ>\<open>char\<close> per code unit; the model therefore covers
  the code units below 256 (Latin-1). In that range the line terminators of ECMAScript
  are LF and CR, and its white space is TAB, LF, VT, FF, CR, SP and NBSP.
\<close>

definition isLineTerminator :: "char \<Rightarrow> bool" where
  "isLineTerminator c = (c = CHR 0x0A \<or> c = CHR 0x0D)"

definition isWhiteSpace :: "char \<Rightarrow> bool" where
  "isWhiteSpace c =
     (c = CHR 0x09 \<or> c = CHR 0x0A \<or> c = CHR 0x0B \<or> c = CHR 0x0C \<or> c = CHR 0x0D \<or>
      c = CHR 0x20 \<or> c = CHR 0xA0)"

text \<open>\<open>String.prototype.trim\<close>.\<close>

definition trim :: "string \<Rightarrow> string" where
  "trim s = rev (dropWhile isWhiteSpace (rev (dropWhile isWhiteSpace s)))"

text \<open>\<open>String.prototype.startsWith\<close>.\<close>

definition startsWith :: "string \<Rightarrow> string \<Rightarrow> bool" where
  "startsWith s p = prefix p s"

text \<open>\<open>String.prototype.indexOf\<close>: the first position of \<open>sub\<close>, or \<open>-1\<close>.\<close>

fun indexOfFrom :: "string \<Rightarrow> string \<Rightarrow> nat \<Rightarrow> int" where
  "indexOfFrom [] sub i = (if sub = [] then int i else - 1)"
| "indexOfFrom (c # cs) sub i =
     (if prefix sub (c # cs) then int i else indexOfFrom cs sub (Suc i))"

definition indexOf :: "string \<Rightarrow> string \<Rightarrow> int" where
  "indexOf s sub = indexOfFrom s sub 0"

text \<open>\<open>String.prototype.lastIndexOf\<close>: the last position of \<open>sub\<close>, or \<open>-1\<close>.\<close>

fun lastIndexOfFrom :: "string \<Rightarrow> string \<Rightarrow> nat \<Rightarrow> int" where
  "lastIndexOfFrom [] sub i = (if sub = [] then int i else - 1)"
| "lastIndexOfFrom (c # cs) sub i =
     (let later = lastIndexOfFrom cs sub (Suc i) in
      if later \<noteq> - 1 then later
      else if prefix sub (c # cs) then int i else - 1)"

definition lastIndexOf :: "string \<Rightarrow> string \<Rightarrow> int" where
  "lastIndexOf s sub = lastIndexOfFrom s sub 0"

text \<open>
  \<open>String.prototype.toLowerCase\<close> on code units below 256: the ASCII capitals and the
  Latin-1 capitals (all of \<open>0xC0 .. 0xDE\<close> but the multiplication sign) move up by 32.
\<close>

definition lowerChar :: "char \<Rightarrow> char" where
  "lowerChar c =
     (let n = (of_char c :: nat) in
      if (65 \<le> n \<and> n \<le> 90) \<or> (192 \<le> n \<and> n \<le> 222 \<and> n \<noteq> 215)
      then char_of (n + 32) else c)"

definition toLowerCase :: "string \<Rightarrow> string" where
  "toLowerCase s = map lowerChar s"

section \<open>Regular expressions\<close>

text \<open>
  The regular expressions of the source use single characters, the dot, character
  classes, greedy \<open>*\<close> and \<open>+\<close> over a single-character atom, one capturing group, one
  positive lookahead and the end-of-input assertion. The matcher follows the
  backtracking semantics of ECMAScript: a matcher takes the rest of the input, the
  captures so far and a continuation, and a greedy quantifier tries the longest
  repetition first.
\<close>

datatype atom =
    Chr char
  | AnyChar
  | OneOf "(char \<times> char) list"
  | NoneOf "(char \<times> char) list"

datatype rx =
    Atom atom
  | Star atom
  | Plus atom
  | Group "rx list"
  | Lookahead "rx list"
  | EndOfInput

definition inRange :: "char \<Rightarrow> char \<times> char \<Rightarrow> bool" where
  "inRange c r = ((of_char (fst r) :: nat) \<le> of_char c \<and> (of_char c :: nat) \<le> of_char (snd r))"

fun atomMatches :: "atom \<Rightarrow> char \<Rightarrow> bool" where
  "atomMatches (Chr d) c = (c = d)"
| "atomMatches AnyChar c = (\<not> isLineTerminator c)"
| "atomMatches (OneOf rs) c = list_ex (inRange c) rs"
| "atomMatches (NoneOf rs) c = (\<not> list_ex (inRange c) rs)"

type_synonym captures = "string list"
type_synonym mresult = "(string \<times> captures) option"

fun star :: "atom \<Rightarrow> string \<Rightarrow> (string \<Rightarrow> mresult) \<Rightarrow> mresult" where
  "star a [] k = k []"
| "star a (c # cs) k =
     (if atomMatches a c
      then (case star a cs k of Some r \<Rightarrow> Some r | None \<Rightarrow> k (c # cs))
      else k (c # cs))"

text \<open>
  A group appends its capture when it closes (the source has no nested groups, so this
  is the order of the opening parentheses). A lookahead keeps the captures of its body
  and restores the position.
\<close>

fun matcher :: "rx list \<Rightarrow> string \<Rightarrow> captures \<Rightarrow> (string \<Rightarrow> captures \<Rightarrow> mresult) \<Rightarrow> mresult" where
  "matcher [] s caps k = k s caps"
| "matcher (Atom a # rs) s caps k =
     (case s of [] \<Rightarrow> None
      | c # cs \<Rightarrow> if atomMatches a c then matcher rs cs caps k else None)"
| "matcher (Star a # rs) s caps k = star a s (\<lambda>s'. matcher rs s' caps k)"
| "matcher (Plus a # rs) s caps k =
     (case s of [] \<Rightarrow> None
      | c # cs \<Rightarrow> if atomMatches a c then star a cs (\<lambda>s'. matcher rs s' caps k) else None)"
| "matcher (Group g # rs) s caps k =
     matcher g s caps (\<lambda>s' caps'. matcher rs s' (caps' @ [take (length s - length s') s]) k)"
| "matcher (Lookahead g # rs) s caps k =
     (case matcher g s caps (\<lambda>s' caps'. Some (s', caps')) of
        None \<Rightarrow> None
      | Some (s', caps') \<Rightarrow> matcher rs s caps' k)"
| "matcher (EndOfInput # rs) s caps k = (if s = [] then matcher rs s caps k else None)"

text \<open>A match of the whole pattern at the start of \<open>s\<close>: the rest and the captures.\<close>

definition matchAt :: "rx list \<Rightarrow> string \<Rightarrow> mresult" where
  "matchAt r s = matcher r s [] (\<lambda>s' caps. Some (s', caps))"

text \<open>
  \<open>RegExp.prototype.exec\<close> without the sticky flag: the leftmost position at which the
  pattern matches, with the matched text and the captures.
\<close>

fun search :: "rx list \<Rightarrow> nat \<Rightarrow> string \<Rightarrow> (nat \<times> string \<times> captures) option" where
  "search r i [] =
     (case matchAt r [] of
        Some (s', caps) \<Rightarrow> Some (i, [], caps)
      | None \<Rightarrow> None)"
| "search r i (c # cs) =
     (case matchAt r (c # cs) of
        Some (s', caps) \<Rightarrow> Some (i, take (length (c # cs) - length s') (c # cs), caps)
      | None \<Rightarrow> search r (Suc i) cs)"

text \<open>
  \<open>String.prototype.match\<close> with a regular expression that has no global flag: \<open>null\<close>
  (here \<open>None\<close>) or the array of the matched text followed by the captures.
\<close>

definition jsMatch :: "string \<Rightarrow> rx list \<Rightarrow> string list option" where
  "jsMatch s r = (case search r 0 s of None \<Rightarrow> None | Some (i, whole, caps) \<Rightarrow> Some (whole # caps))"

text \<open>A pattern that matches one fixed text: \<open>/\$dir/\<close>, \<open>/&&/\<close>, or a string pattern.\<close>

definition literal :: "string \<Rightarrow> rx list" where
  "literal p = map (\<lambda>c. Atom (Chr c)) p"

subsection \<open>Replacement\<close>

definition isDigit :: "char \<Rightarrow> bool" where
  "isDigit c = ((48::nat) \<le> of_char c \<and> (of_char c :: nat) \<le> 57)"

definition digitValue :: "char \<Rightarrow> nat" where
  "digitValue c = of_char c - 48"

text \<open>
  \<open>GetSubstitution\<close> of ECMAScript: in a replacement text, \<open>$$\<close> is a dollar, \<open>$&\<close> the
  matched text, \<open>$`\<close> the text before the match, \<open>$'\<close> the text after it, and \<open>$n\<close>,
  \<open>$nn\<close> the capture of that number when there is one; every other dollar stands for
  itself.
\<close>

fun getSubstitution :: "string \<Rightarrow> string \<Rightarrow> string \<Rightarrow> captures \<Rightarrow> string \<Rightarrow> string" where
  "getSubstitution matched pre post caps [] = []"
| "getSubstitution matched pre post caps [c] = [c]"
| "getSubstitution matched pre post caps (c # d # t) =
     (if c \<noteq> CHR ''$'' then c # getSubstitution matched pre post caps (d # t)
      else if d = CHR ''$'' then CHR ''$'' # getSubstitution matched pre post caps t
      else if d = CHR ''&'' then matched @ getSubstitution matched pre post caps t
      else if d = CHR 0x60 then pre @ getSubstitution matched pre post caps t
      else if d = CHR 0x27 then post @ getSubstitution matched pre post caps t
      else if isDigit d then
        (case t of
           e # t' \<Rightarrow>
             if isDigit e \<and> 1 \<le> 10 * digitValue d + digitValue e
                \<and> 10 * digitValue d + digitValue e \<le> length caps
             then caps ! (10 * digitValue d + digitValue e - 1) @ getSubstitution matched pre post caps t'
             else if 1 \<le> digitValue d \<and> digitValue d \<le> length caps
             then caps ! (digitValue d - 1) @ getSubstitution matched pre post caps t
             else c # d # getSubstitution matched pre post caps t
         | [] \<Rightarrow>
             if 1 \<le> digitValue d \<and> digitValue d \<le> length caps
             then caps ! (digitValue d - 1)
             else [c, d])
      else c # getSubstitution matched pre post caps (d # t))"

text \<open>
  The second argument of \<open>replace\<close>: a replacement text, expanded by
  \<open>getSubstitution\<close>, or a function of the matched text and the captures, whose
  result is inserted as it is.
\<close>

datatype replaceValue = Template string | Callback "string \<Rightarrow> captures \<Rightarrow> string"

fun replacement :: "replaceValue \<Rightarrow> string \<Rightarrow> string \<Rightarrow> string \<Rightarrow> captures \<Rightarrow> string" where
  "replacement (Template v) matched pre post caps = getSubstitution matched pre post caps v"
| "replacement (Callback f) matched pre post caps = f matched caps"

text \<open>
  \<open>replace\<close> with a pattern that has no global flag, or with a string pattern (then
  \<open>r\<close> is \<open>literal\<close> of it): only the leftmost match is replaced.
\<close>

definition replaceFirst :: "rx list \<Rightarrow> replaceValue \<Rightarrow> string \<Rightarrow> string" where
  "replaceFirst r v s =
     (case search r 0 s of
        None \<Rightarrow> s
      | Some (i, whole, caps) \<Rightarrow>
          take i s @ replacement v whole (take i s) (drop (i + length whole) s) caps
            @ drop (i + length whole) s)"

text \<open>
  \<open>replace\<close> with a global pattern: every match from left to right, each search
  resuming where the previous match ended, one code unit further after an empty match.
  \<open>pre\<close> is the text already passed, \<open>s\<close> the text still to scan.
\<close>

function replaceAllFrom :: "rx list \<Rightarrow> replaceValue \<Rightarrow> string \<Rightarrow> string \<Rightarrow> string" where
  "replaceAllFrom r v pre s =
     (case matchAt r s of
        None \<Rightarrow>
          (case s of [] \<Rightarrow> [] | c # cs \<Rightarrow> c # replaceAllFrom r v (pre @ [c]) cs)
      | Some (s', caps) \<Rightarrow>
          (if length s' < length s
           then replacement v (take (length s - length s') s) pre s' caps
                  @ replaceAllFrom r v (pre @ take (length s - length s') s) s'
           else (case s of
                   [] \<Rightarrow> replacement v [] pre s caps
                 | c # cs \<Rightarrow> replacement v [] pre s caps @ c # replaceAllFrom r v (pre @ [c]) cs)))"
  by pat_completeness auto
termination
  by (relation "measure (\<lambda>(r, v, pre, s). length s)") auto

definition replaceAll :: "rx list \<Rightarrow> replaceValue \<Rightarrow> string \<Rightarrow> string" where
  "replaceAll r v s = replaceAllFrom r v [] s"

section \<open>Values of the configuration\<close>

text \<open>
  A setting read from a configuration object, or a property read from one of its maps,
  is \<open>undefined\<close>, \<open>null\<close>, a string, or a function or an object, of which only the
  text that string concatenation gives it matters here. \<open>v == null\<close> holds of the first
  two; a string is truthy when it is not empty, a function or an object always.
\<close>

datatype jsval = Undefined | Null | Str string | Obj string

datatype jsError = TypeError | IOError

fun isNullish :: "jsval \<Rightarrow> bool" where
  "isNullish Undefined = True"
| "isNullish Null = True"
| "isNullish (Str s) = False"
| "isNullish (Obj t) = False"

fun isTruthy :: "jsval \<Rightarrow> bool" where
  "isTruthy (Str s) = (s \<noteq> [])"
| "isTruthy (Obj t) = True"
| "isTruthy v = False"

text \<open>A string value in a string concatenation; \<open>undefined\<close> prints as its name.\<close>

fun toText :: "string option \<Rightarrow> string" where
  "toText None = ''undefined''"
| "toText (Some s) = s"

fun truthy :: "string option \<Rightarrow> bool" where
  "truthy None = False"
| "truthy (Some s) = (s \<noteq> [])"

text \<open>
  The maps of the configuration are plain objects. A property read \<open>m[k]\<close> gives the
  own property \<open>k\<close> of the object, or else the member \<open>k\<close> that it inherits from
  \<open>Object.prototype\<close>, or else \<open>undefined\<close>. The inherited members are functions, printed
  as the engine of the editor prints a native function, and the accessor \<open>__proto__\<close>,
  which gives the prototype object.
\<close>

definition nativeFunction :: "string \<Rightarrow> jsval" where
  "nativeFunction name = Obj (''function '' @ name @ ''() { [native code] }'')"

definition objectPrototype :: "(string \<times> jsval) list" where
  "objectPrototype =
     [(''constructor'', nativeFunction ''Object''),
      (''__defineGetter__'', nativeFunction ''__defineGetter__''),
      (''__defineSetter__'', nativeFunction ''__defineSetter__''),
      (''hasOwnProperty'', nativeFunction ''hasOwnProperty''),
      (''__lookupGetter__'', nativeFunction ''__lookupGetter__''),
      (''__lookupSetter__'', nativeFunction ''__lookupSetter__''),
      (''isPrototypeOf'', nativeFunction ''isPrototypeOf''),
      (''propertyIsEnumerable'', nativeFunction ''propertyIsEnumerable''),
      (''toString'', nativeFunction ''toString''),
      (''valueOf'', nativeFunction ''valueOf''),
      (''__proto__'', Obj ''[object Object]''),
      (''toLocaleString'', nativeFunction ''toLocaleString'')]"

definition getProperty :: "(string \<times> jsval) list \<Rightarrow> string \<Rightarrow> jsval" where
  "getProperty object key =
     (case map_of object key of
        Some v \<Rightarrow> v
      | None \<Rightarrow> (case map_of objectPrototype key of Some v \<Rightarrow> v | None \<Rightarrow> Undefined))"

text \<open>
  The settings of \<open>code-runner\<close>. The three maps are given by their own properties, as
  the settings file lists them.
\<close>

record config =
  cfgCwd :: "string option"
  fileDirectoryAsCwd :: bool
  ignoreSelection :: bool
  saveAllFilesBeforeRun :: bool
  saveFileBeforeRun :: bool
  runInTerminal :: bool
  preserveFocus :: bool
  clearPreviousOutput :: bool
  showExecutionMessage :: bool
  customCommand :: string
  executorMap :: "(string \<times> jsval) list"
  executorMapByFileExtension :: "(string \<times> jsval) list"
  languageIdToFileExtensionMap :: "(string \<times> jsval) list"
  defaultLanguage :: string
  terminalRoot :: "string option"

section \<open>Executor resolver\<close>

text \<open>\<open>getFileExtension\<close>: the file name from its last dot on, or the empty string.\<close>

definition getFileExtension :: "string \<Rightarrow> string" where
  "getFileExtension fileName =
     (let index = lastIndexOf fileName ''.'' in
      if index \<noteq> - 1 then drop (nat index) fileName else [])"

text \<open>
  \<open>getExecutor\<close> returns the executor and the language id it leaves in
  \<open>this._languageId\<close>. \<open>documentLanguageId\<close> is the language id of the active document,
  used when the argument is \<open>null\<close> (\<open>None\<close>). Each lookup is a property read, so the
  executor returned can be an inherited member of the map object.
\<close>

definition getExecutor :: "config \<Rightarrow> string \<Rightarrow> string option \<Rightarrow> string \<Rightarrow> jsval \<times> string" where
  "getExecutor cfg documentLanguageId languageId fileExtension =
     (let lang0 = (case languageId of None \<Rightarrow> documentLanguageId | Some l \<Rightarrow> l);
          executor0 = getProperty (executorMap cfg) lang0;
          (executor1, lang1) =
            (if isNullish executor0 \<and> fileExtension \<noteq> []
             then (let byExtension = getProperty (executorMapByFileExtension cfg) fileExtension
                   in (byExtension, if \<not> isNullish byExtension then fileExtension else lang0))
             else (executor0, lang0))
      in if isNullish executor1
         then (getProperty (executorMap cfg) (defaultLanguage cfg), defaultLanguage cfg)
         else (executor1, lang1))"

section \<open>Names of temporary files\<close>

text \<open>
  \<open>rndName\<close>: \<open>r\<close> is the text of \<open>Math.random().toString(36)\<close>; the runs of characters
  outside \<open>a-z\<close> are deleted and at most ten characters are kept.
\<close>

definition rndName :: "string \<Rightarrow> string" where
  "rndName r = take 10 (replaceAll [Plus (NoneOf [(CHR ''a'', CHR ''z'')])] (Template []) r)"

text \<open>
  The choice of \<open>fileType\<close> in \<open>createRandomFile\<close>. The value of the map is taken when
  it is truthy; the name of the file is made by string concatenation.
\<close>

definition fileType :: "config \<Rightarrow> string option \<Rightarrow> string \<Rightarrow> string" where
  "fileType cfg languageId fileExtension =
     (case languageId of
        None \<Rightarrow> (if fileExtension \<noteq> [] then fileExtension else ''.'' @ toText languageId)
      | Some l \<Rightarrow>
          (case getProperty (languageIdToFileExtensionMap cfg) l of
             Str ext \<Rightarrow>
               if l \<noteq> [] \<and> ext \<noteq> [] then ext
               else if fileExtension \<noteq> [] then fileExtension else ''.'' @ l
           | Obj t \<Rightarrow>
               if l \<noteq> [] then t
               else if fileExtension \<noteq> [] then fileExtension else ''.'' @ l
           | _ \<Rightarrow> (if fileExtension \<noteq> [] then fileExtension else ''.'' @ l)))"

definition tmpFileName :: "config \<Rightarrow> string option \<Rightarrow> string \<Rightarrow> string \<Rightarrow> string" where
  "tmpFileName cfg languageId fileExtension r =
     ''temp'' @ rndName r @ fileType cfg languageId fileExtension"

text \<open>The normalization of PHP text in \<open>getCodeFileAndExecute\<close>.\<close>

definition phpText :: "string option \<Rightarrow> string \<Rightarrow> string" where
  "phpText languageId t =
     (if languageId = Some ''php''
      then (let t' = trim t
            in if \<not> startsWith t' ''<?php'' then ''<?php'' @ [CHR 0x0D, CHR 0x0A] @ t' else t')
      else t)"

section \<open>Command builder\<close>

definition separator :: atom where
  "separator = OneOf [(CHR ''/'', CHR ''/''), (CHR 0x5C, CHR 0x5C)]"

text \<open>\<open>/.*[\/\\](.*)/\<close>\<close>

definition rxCodeBaseFile :: "rx list" where
  "rxCodeBaseFile = [Star AnyChar, Atom separator, Group [Star AnyChar]]"

text \<open>\<open>/.*[\/\\](.*(?=\..*))/\<close>\<close>

definition rxCodeFileWithoutDirAndExt :: "rx list" where
  "rxCodeFileWithoutDirAndExt =
     [Star AnyChar, Atom separator,
      Group [Star AnyChar, Lookahead [Atom (Chr (CHR ''.'')), Star AnyChar]]]"

text \<open>\<open>/(.*[\/\\]).*/\<close>\<close>

definition rxCodeFileDir :: "rx list" where
  "rxCodeFileDir = [Group [Star AnyChar, Atom separator], Star AnyChar]"

text \<open>\<open>/[\/\\]$/\<close>\<close>

definition rxTrailingSlash :: "rx list" where
  "rxTrailingSlash = [Atom separator, EndOfInput]"

text \<open>
  The three helpers read \<open>regexMatch.length\<close> of the result of \<open>match\<close>; when the
  pattern does not match, the result is \<open>null\<close> and the read throws a \<open>TypeError\<close>.
\<close>

definition matchGroup :: "string \<Rightarrow> rx list \<Rightarrow> jsError + string" where
  "matchGroup codeFile r =
     (case jsMatch codeFile r of
        None \<Rightarrow> Inl TypeError
      | Some regexMatch \<Rightarrow> Inr (if length regexMatch \<noteq> 0 then regexMatch ! 1 else codeFile))"

definition getCodeBaseFile :: "string \<Rightarrow> jsError + string" where
  "getCodeBaseFile codeFile = matchGroup codeFile rxCodeBaseFile"

definition getCodeFileWithoutDirAndExt :: "string \<Rightarrow> jsError + string" where
  "getCodeFileWithoutDirAndExt codeFile = matchGroup codeFile rxCodeFileWithoutDirAndExt"

definition getCodeFileDir :: "string \<Rightarrow> jsError + string" where
  "getCodeFileDir codeFile = matchGroup codeFile rxCodeFileDir"

definition getCodeFileDirWithoutTrailingSlash :: "string \<Rightarrow> jsError + string" where
  "getCodeFileDirWithoutTrailingSlash codeFile =
     (case getCodeFileDir codeFile of
        Inl e \<Rightarrow> Inl e
      | Inr d \<Rightarrow> Inr (replaceFirst rxTrailingSlash (Template []) d))"

definition getWorkspaceRoot :: "string option \<Rightarrow> string \<Rightarrow> string" where
  "getWorkspaceRoot rootPath codeFileDir = (if truthy rootPath then toText rootPath else codeFileDir)"

definition quoteFileName :: "string \<Rightarrow> string" where
  "quoteFileName fileName = [CHR 0x22] @ fileName @ [CHR 0x22]"

text \<open>
  The array \<open>placeholders\<close> of \<open>getFinalCommandToRunCodeFile\<close>, in the order of the
  source. Computing it calls the path helpers, so it throws when one of them does.
\<close>

definition placeholders :: "string option \<Rightarrow> string \<Rightarrow> jsError + (string \<times> string) list" where
  "placeholders rootPath codeFile =
     (case getCodeFileDir codeFile of Inl e \<Rightarrow> Inl e | Inr codeFileDir \<Rightarrow>
     (case getCodeFileWithoutDirAndExt codeFile of Inl e \<Rightarrow> Inl e | Inr withoutDirAndExt \<Rightarrow>
     (case getCodeBaseFile codeFile of Inl e \<Rightarrow> Inl e | Inr baseFile \<Rightarrow>
     (case getCodeFileDirWithoutTrailingSlash codeFile of Inl e \<Rightarrow> Inl e | Inr dirWithoutSlash \<Rightarrow>
        Inr [(''$workspaceRoot'', getWorkspaceRoot rootPath codeFileDir),
             (''$fileNameWithoutExt'', withoutDirAndExt),
             (''$fullFileName'', quoteFileName codeFile),
             (''$fileName'', baseFile),
             (''$dirWithoutTrailingSlash'', quoteFileName dirWithoutSlash),
             (''$dir'', quoteFileName codeFileDir)]))))"

text \<open>
  The \<open>forEach\<close> over the placeholders: each is a global pattern for its fixed text,
  replaced by its value as a replacement text.
\<close>

definition applyPlaceholders :: "(string \<times> string) list \<Rightarrow> string \<Rightarrow> string" where
  "applyPlaceholders phs cmd =
     foldl (\<lambda>cmd (regex, replaceValue). replaceAll (literal regex) (Template replaceValue) cmd) cmd phs"

definition getFinalCommandToRunCodeFile ::
    "string option \<Rightarrow> string option \<Rightarrow> string \<Rightarrow> bool \<Rightarrow> jsError + string" where
  "getFinalCommandToRunCodeFile rootPath codeFile executor appendFile =
     (case (if truthy codeFile
            then (case placeholders rootPath (toText codeFile) of
                    Inl e \<Rightarrow> Inl e
                  | Inr phs \<Rightarrow> Inr (applyPlaceholders phs executor))
            else Inr executor) of
        Inl e \<Rightarrow> Inl e
      | Inr cmd \<Rightarrow>
          Inr (if cmd \<noteq> executor then cmd
               else executor @ (if appendFile then '' '' @ quoteFileName (toText codeFile) else [])))"

text \<open>
  The same method when the executor is not a string but a function or an object, given
  by its text \<open>t\<close>: it has no \<open>replace\<close>, so the call for the first placeholder throws,
  unless a path helper has thrown before; with no code file the text is concatenated.
\<close>

definition getFinalCommandToRunCodeFileObj :: "string option \<Rightarrow> string \<Rightarrow> bool \<Rightarrow> jsError + string" where
  "getFinalCommandToRunCodeFileObj codeFile t appendFile =
     (if truthy codeFile then Inl TypeError
      else Inr (t @ (if appendFile then '' '' @ quoteFileName (toText codeFile) else [])))"

section \<open>Platform adapter\<close>

definition changeExecutorFromCmdToPs :: "string \<Rightarrow> string option \<Rightarrow> string \<Rightarrow> string" where
  "changeExecutorFromCmdToPs platform windowsShell executor =
     (if platform = ''win32'' \<and> truthy windowsShell
         \<and> indexOf (toLowerCase (toText windowsShell)) ''powershell'' > - 1
         \<and> indexOf executor '' && '' > - 1
      then (let replacement1 = ''; if ($?) {'';
                executor1 = replaceFirst (literal ''&&'') (Template replacement1) executor;
                replacement2 = ''} '' @ replacement1;
                executor2 = replaceAll (literal ''&&'') (Template replacement2) executor1;
                executor3 = replaceAll (literal ''$dir$fileNameWithoutExt'')
                              (Template (''.'' @ [CHR 0x5C] @ ''$fileNameWithoutExt'')) executor2
            in executor3 @ '' }'')
      else executor)"

text \<open>\<open>/([A-Za-z]):\\/g\<close> and \<open>/\\/g\<close>\<close>

definition rxDrive :: "rx list" where
  "rxDrive =
     [Group [Atom (OneOf [(CHR ''A'', CHR ''Z''), (CHR ''a'', CHR ''z'')])],
      Atom (Chr (CHR '':'')), Atom (Chr (CHR 0x5C))]"

definition rxBackslash :: "rx list" where
  "rxBackslash = [Atom (Chr (CHR 0x5C))]"

text \<open>
  The two replacer functions: the arrow function of the terminal-root branch and the
  method \<open>replacer\<close>. \<open>p1\<close> is the first capture; the pattern has one group, which
  takes part in every match.
\<close>

definition rootReplacer :: "string \<Rightarrow> string \<Rightarrow> captures \<Rightarrow> string" where
  "rootReplacer root matched caps =
     (case caps of [] \<Rightarrow> [] | p1 # ps \<Rightarrow> root @ toLowerCase p1 @ ''/'')"

definition replacer :: "string \<Rightarrow> captures \<Rightarrow> string" where
  "replacer matched caps = (case caps of [] \<Rightarrow> [] | p1 # ps \<Rightarrow> ''/mnt/'' @ toLowerCase p1 @ ''/'')"

definition changeFilePathForBashOnWindows ::
    "string \<Rightarrow> string option \<Rightarrow> string option \<Rightarrow> string \<Rightarrow> string" where
  "changeFilePathForBashOnWindows platform windowsShell root command =
     (if platform = ''win32''
      then (if truthy windowsShell \<and> truthy root
            then replaceAll rxBackslash (Template ''/'')
                   (replaceAll rxDrive (Callback (rootReplacer (toText root))) command)
            else if truthy windowsShell
                    \<and> indexOf (toLowerCase (toText windowsShell)) ''bash'' > - 1
                    \<and> indexOf (toLowerCase (toText windowsShell)) ''windows'' > - 1
            then replaceAll rxBackslash (Template ''/'')
                   (replaceAll rxDrive (Callback replacer) command)
            else command)
      else command)"

section \<open>The session\<close>

text \<open>
  The active editor as the methods read it: the document's file name, whether it is
  untitled, its language id and text, and the selection (whether it is empty, and the
  text it selects).
\<close>

record editor =
  fileName :: string
  isUntitled :: bool
  documentLanguageId :: string
  documentText :: string
  selectionIsEmpty :: bool
  selectionText :: string

text \<open>
  What a method reads from outside the object when it runs: the active editor, the
  workspace root, the platform, the shell setting of the integrated terminal, the
  temporary directory, \<open>dirname\<close> and \<open>join\<close> of the module \<open>path\<close>, the text of
  \<open>Math.random().toString(36)\<close>, the paths at which writing a file fails, and the
  configuration that \<open>getConfiguration("code-runner")\<close> returns.
\<close>

record host =
  activeTextEditor :: "editor option"
  rootPath :: "string option"
  platform :: string
  windowsShell :: "string option"
  tmpDir :: string
  dirname :: "string \<Rightarrow> string"
  pathJoin :: "string \<Rightarrow> string \<Rightarrow> string"
  random36 :: string
  writeFails :: "string \<Rightarrow> bool"
  currentConfig :: config

text \<open>The calls to the collaborators, in the order in which they are made.\<close>

datatype effect =
    ShowInformationMessage string
  | OutputClear
  | OutputShow bool
  | OutputAppend string
  | OutputAppendLine string
  | CreateTerminal
  | TerminalShow bool
  | TerminalClear
  | TerminalSendText string
  | SendEvent string
  | ShowQuickPick
  | SaveAll
  | SaveDocument
  | WriteFile string string
  | Unlink string
  | Exec nat string "string option"
  | TreeKill nat

text \<open>
  What waits for an asynchronous completion: \<open>executeCommand\<close> after a save, with an
  executor that is a string or with the text of one that is not, and the rest of
  \<open>executeCommandInTerminal\<close> after the terminal was cleared.
\<close>

datatype pending = AfterSave string bool | AfterSaveObj string bool | AfterClear string

text \<open>
  The fields of the object, and around them the state of the collaborators that the
  methods change: the continuations that wait, the errors thrown and not caught, the
  calls made, the files written, the child processes started and not yet closed (each
  with the \<open>showExecutionMessage\<close> its \<open>close\<close> handler captured) and the next process
  id. \<open>sessionConfig\<close> is \<open>this._config\<close>; no method reads it before \<open>initialize\<close> has
  set it.
\<close>

record session =
  terminal :: bool
  isRunning :: bool
  process :: "nat option"
  codeFile :: "string option"
  isTmpFile :: bool
  languageId :: "string option"
  cwd :: "string option"
  sessionConfig :: config
  waiting :: "pending list"
  uncaught :: "jsError list"
  effects :: "effect list"
  files :: "string \<Rightarrow> string option"
  live :: "(nat \<times> bool) list"
  nextPid :: nat

definition initialSession :: "config \<Rightarrow> session" where
  "initialSession cfg =
     \<lparr> terminal = False, isRunning = False, process = None, codeFile = None,
       isTmpFile = False, languageId = None, cwd = None, sessionConfig = cfg,
       waiting = [], uncaught = [], effects = [], files = (\<lambda>p. None), live = [],
       nextPid = 0 \<rparr>"

definition emit :: "effect \<Rightarrow> session \<Rightarrow> session" where
  "emit e s = s\<lparr>effects := effects s @ [e]\<rparr>"

definition throw :: "jsError \<Rightarrow> session \<Rightarrow> session" where
  "throw e s = s\<lparr>uncaught := uncaught s @ [e]\<rparr>"

definition onDidCloseTerminal :: "session \<Rightarrow> session" where
  "onDidCloseTerminal s = s\<lparr>terminal := False\<rparr>"

definition initialize :: "host \<Rightarrow> session \<Rightarrow> session" where
  "initialize h s =
     (let cfg = currentConfig h;
          s1 = s\<lparr>sessionConfig := cfg, cwd := cfgCwd cfg\<rparr>
      in if truthy (cfgCwd cfg) then s1
         else (let s2 = (case activeTextEditor h of
                           Some ed \<Rightarrow>
                             if (fileDirectoryAsCwd cfg \<or> \<not> truthy (rootPath h)) \<and> \<not> isUntitled ed
                             then s1\<lparr>cwd := Some (dirname h (fileName ed))\<rparr>
                             else s1\<lparr>cwd := rootPath h\<rparr>
                         | None \<Rightarrow> s1\<lparr>cwd := rootPath h\<rparr>)
               in if truthy (cwd s2) then s2 else s2\<lparr>cwd := Some (tmpDir h)\<rparr>))"

text \<open>
  \<open>createRandomFile\<close>. \<open>join\<close> throws when the folder is not a string, and
  \<open>writeFileSync\<close> where the host says so; the result tells whether the caller goes on.
\<close>

definition createRandomFile ::
    "host \<Rightarrow> string \<Rightarrow> string option \<Rightarrow> string \<Rightarrow> session \<Rightarrow> jsError option \<times> session" where
  "createRandomFile h content folder fileExtension s =
     (case folder of
        None \<Rightarrow> (Some TypeError, s)
      | Some dir \<Rightarrow>
          (let path = pathJoin h dir
                        (tmpFileName (sessionConfig s) (languageId s) fileExtension (random36 h));
               s1 = s\<lparr>codeFile := Some path\<rparr>
           in if writeFails h path then (Some IOError, s1)
              else (None, (emit (WriteFile path content) s1)\<lparr>files := (files s1)(path \<mapsto> content)\<rparr>)))"

subsection \<open>Process runner\<close>

definition executeCommandInOutputChannel :: "host \<Rightarrow> string \<Rightarrow> bool \<Rightarrow> session \<Rightarrow> session" where
  "executeCommandInOutputChannel h executor appendFile s =
     (let cfg = sessionConfig s;
          s1 = s\<lparr>isRunning := True\<rparr>;
          s2 = (if clearPreviousOutput cfg then emit OutputClear s1 else s1);
          s3 = emit (OutputShow (preserveFocus cfg)) s2
      in case getFinalCommandToRunCodeFile (rootPath h) (codeFile s3) executor appendFile of
           Inl e \<Rightarrow> throw e s3
         | Inr command \<Rightarrow>
             (let s4 = (if showExecutionMessage cfg
                        then emit (OutputAppendLine (''[Running] '' @ command)) s3 else s3);
                  s5 = emit (SendEvent executor) s4;
                  pid = nextPid s5
              in (emit (Exec pid command (cwd s5)) s5)
                   \<lparr>process := Some pid, nextPid := Suc pid,
                    live := live s5 @ [(pid, showExecutionMessage cfg)]\<rparr>))"

text \<open>
  The handlers of a child process: \<open>data\<close> on its output streams, and \<open>close\<close> with
  the exit code and the elapsed seconds as the handler prints them. \<open>fs.unlink\<close> is called
  without a callback, which the Node of this editor accepts: the file is removed.
\<close>

definition onProcessData :: "nat \<Rightarrow> string \<Rightarrow> session \<Rightarrow> session" where
  "onProcessData pid chunk s =
     (if pid \<in> fst ` set (live s) then emit (OutputAppend chunk) s else s)"

definition onProcessClose :: "nat \<Rightarrow> string \<Rightarrow> string \<Rightarrow> session \<Rightarrow> session" where
  "onProcessClose pid code elapsedTime s =
     (case map_of (live s) pid of
        None \<Rightarrow> s
      | Some showMessage \<Rightarrow>
          (let s1 = s\<lparr>isRunning := False, live := filter (\<lambda>p. fst p \<noteq> pid) (live s)\<rparr>;
               s2 = emit (OutputAppendLine []) s1;
               s3 = (if showMessage
                     then emit (OutputAppendLine [])
                            (emit (OutputAppendLine
                               (''[Done] exited with code='' @ code @ '' in '' @ elapsedTime @ '' seconds'')) s2)
                     else s2)
           in if isTmpFile s3
              then (case codeFile s3 of
                      None \<Rightarrow> throw TypeError s3
                    | Some f \<Rightarrow> (emit (Unlink f) s3)\<lparr>files := (files s3)(f := None)\<rparr>)
              else s3))"

definition stop :: "session \<Rightarrow> session" where
  "stop s =
     (let s1 = emit (SendEvent ''stop'') s
      in if isRunning s1
         then (let s2 = s1\<lparr>isRunning := False\<rparr>
               in case process s2 of
                    None \<Rightarrow> throw TypeError s2
                  | Some pid \<Rightarrow> emit (TreeKill pid) s2)
         else s1)"

text \<open>
  The end of \<open>executeCommandInTerminal\<close>, which runs at once or after the terminal was
  cleared; \<open>sendText\<close> throws when the terminal has been closed meanwhile. With
  \<open>this._cwd\<close> undefined the path adapter throws where it would rewrite, and elsewhere
  the template literal prints \<open>undefined\<close>; \<open>initialize\<close> always leaves a string there.
\<close>

definition sendToTerminal :: "host \<Rightarrow> string \<Rightarrow> session \<Rightarrow> session" where
  "sendToTerminal h command s =
     (let cfg = sessionConfig s;
          shell = toLowerCase (toText (windowsShell h));
          rewrites = (platform h = ''win32'' \<and> truthy (windowsShell h)
                      \<and> (truthy (terminalRoot cfg)
                           \<or> (indexOf shell ''bash'' > - 1 \<and> indexOf shell ''windows'' > - 1)))
      in if fileDirectoryAsCwd cfg \<and> cwd s = None \<and> rewrites then throw TypeError s
         else if \<not> terminal s then throw TypeError s
         else (let s1 = (if fileDirectoryAsCwd cfg
                         then (case cwd s of
                                 None \<Rightarrow>
                                   emit (TerminalSendText (''cd '' @ quoteFileName ''undefined'')) s
                               | Some d \<Rightarrow>
                                   emit (TerminalSendText
                                     (''cd '' @ quoteFileName
                                        (changeFilePathForBashOnWindows (platform h) (windowsShell h)
                                           (terminalRoot cfg) d))) s)
                         else s)
               in emit (TerminalSendText command) s1))"

definition executeCommandInTerminal :: "host \<Rightarrow> string \<Rightarrow> bool \<Rightarrow> session \<Rightarrow> session" where
  "executeCommandInTerminal h executor appendFile s =
     (let cfg = sessionConfig s;
          isNewTerminal = (\<not> terminal s);
          s1 = (if isNewTerminal then (emit CreateTerminal s)\<lparr>terminal := True\<rparr> else s);
          s2 = emit (TerminalShow (preserveFocus cfg)) s1;
          executor' = changeExecutorFromCmdToPs (platform h) (windowsShell h) executor;
          s3 = emit (SendEvent executor') s2
      in case getFinalCommandToRunCodeFile (rootPath h) (codeFile s3) executor' appendFile of
           Inl e \<Rightarrow> throw e s3
         | Inr command0 \<Rightarrow>
             (let command = changeFilePathForBashOnWindows (platform h) (windowsShell h)
                              (terminalRoot cfg) command0
              in if clearPreviousOutput cfg \<and> \<not> isNewTerminal
                 then (emit TerminalClear s3)\<lparr>waiting := waiting s3 @ [AfterClear command]\<rparr>
                 else sendToTerminal h command s3))"

definition executeCommand :: "host \<Rightarrow> string \<Rightarrow> bool \<Rightarrow> session \<Rightarrow> session" where
  "executeCommand h executor appendFile s =
     (if runInTerminal (sessionConfig s) \<and> \<not> isTmpFile s
      then executeCommandInTerminal h executor appendFile s
      else executeCommandInOutputChannel h executor appendFile s)"

subsection \<open>Code materializer\<close>

definition getCodeFileAndExecute ::
    "host \<Rightarrow> editor \<Rightarrow> string \<Rightarrow> string \<Rightarrow> bool \<Rightarrow> session \<Rightarrow> session" where
  "getCodeFileAndExecute h ed fileExtension executor appendFile s =
     (let cfg = sessionConfig s in
      if (selectionIsEmpty ed \<or> ignoreSelection cfg) \<and> \<not> isUntitled ed
      then (let s1 = s\<lparr>isTmpFile := False, codeFile := Some (fileName ed)\<rparr>
            in if saveAllFilesBeforeRun cfg
               then (emit SaveAll s1)\<lparr>waiting := waiting s1 @ [AfterSave executor appendFile]\<rparr>
               else if saveFileBeforeRun cfg
               then (emit SaveDocument s1)\<lparr>waiting := waiting s1 @ [AfterSave executor appendFile]\<rparr>
               else executeCommand h executor appendFile s1)
      else (let content = phpText (languageId s)
                            (if selectionIsEmpty ed \<or> ignoreSelection cfg
                             then documentText ed else selectionText ed);
                s1 = s\<lparr>isTmpFile := True\<rparr>;
                folder = (if isUntitled ed then cwd s1 else Some (dirname h (fileName ed)))
            in case createRandomFile h content folder fileExtension s1 of
                 (Some e, s2) \<Rightarrow> throw e s2
               | (None, s2) \<Rightarrow> executeCommand h executor appendFile s2))"

subsection \<open>An executor that is not a string\<close>

text \<open>
  \<open>run\<close> passes on what \<open>getExecutor\<close> returned unless it is \<open>undefined\<close> or \<open>null\<close>, so
  the methods above also run with an inherited member of the map object as executor.
  The definitions below are those methods for such an executor, given by its text \<open>t\<close>.
  It has no \<open>indexOf\<close>, so \<open>changeExecutorFromCmdToPs\<close> throws where it would search the
  executor. The telemetry event is logged with the text of the executor.
\<close>

definition executeCommandInOutputChannelObj :: "host \<Rightarrow> string \<Rightarrow> bool \<Rightarrow> session \<Rightarrow> session" where
  "executeCommandInOutputChannelObj h t appendFile s =
     (let cfg = sessionConfig s;
          s1 = s\<lparr>isRunning := True\<rparr>;
          s2 = (if clearPreviousOutput cfg then emit OutputClear s1 else s1);
          s3 = emit (OutputShow (preserveFocus cfg)) s2
      in case getFinalCommandToRunCodeFileObj (codeFile s3) t appendFile of
           Inl e \<Rightarrow> throw e s3
         | Inr command \<Rightarrow>
             (let s4 = (if showExecutionMessage cfg
                        then emit (OutputAppendLine (''[Running] '' @ command)) s3 else s3);
                  s5 = emit (SendEvent t) s4;
                  pid = nextPid s5
              in (emit (Exec pid command (cwd s5)) s5)
                   \<lparr>process := Some pid, nextPid := Suc pid,
                    live := live s5 @ [(pid, showExecutionMessage cfg)]\<rparr>))"

definition executeCommandInTerminalObj :: "host \<Rightarrow> string \<Rightarrow> bool \<Rightarrow> session \<Rightarrow> session" where
  "executeCommandInTerminalObj h t appendFile s =
     (let cfg = sessionConfig s;
          isNewTerminal = (\<not> terminal s);
          s1 = (if isNewTerminal then (emit CreateTerminal s)\<lparr>terminal := True\<rparr> else s);
          s2 = emit (TerminalShow (preserveFocus cfg)) s1
      in if platform h = ''win32'' \<and> truthy (windowsShell h)
            \<and> indexOf (toLowerCase (toText (windowsShell h))) ''powershell'' > - 1
         then throw TypeError s2
         else (let s3 = emit (SendEvent t) s2
               in case getFinalCommandToRunCodeFileObj (codeFile s3) t appendFile of
                    Inl e \<Rightarrow> throw e s3
                  | Inr command0 \<Rightarrow>
                      (let command = changeFilePathForBashOnWindows (platform h) (windowsShell h)
                                       (terminalRoot cfg) command0
                       in if clearPreviousOutput cfg \<and> \<not> isNewTerminal
                          then (emit TerminalClear s3)\<lparr>waiting := waiting s3 @ [AfterClear command]\<rparr>
                          else sendToTerminal h command s3)))"

definition executeCommandObj :: "host \<Rightarrow> string \<Rightarrow> bool \<Rightarrow> session \<Rightarrow> session" where
  "executeCommandObj h t appendFile s =
     (if runInTerminal (sessionConfig s) \<and> \<not> isTmpFile s
      then executeCommandInTerminalObj h t appendFile s
      else executeCommandInOutputChannelObj h t appendFile s)"

definition getCodeFileAndExecuteObj ::
    "host \<Rightarrow> editor \<Rightarrow> string \<Rightarrow> string \<Rightarrow> bool \<Rightarrow> session \<Rightarrow> session" where
  "getCodeFileAndExecuteObj h ed fileExtension t appendFile s =
     (let cfg = sessionConfig s in
      if (selectionIsEmpty ed \<or> ignoreSelection cfg) \<and> \<not> isUntitled ed
      then (let s1 = s\<lparr>isTmpFile := False, codeFile := Some (fileName ed)\<rparr>
            in if saveAllFilesBeforeRun cfg
               then (emit SaveAll s1)\<lparr>waiting := waiting s1 @ [AfterSaveObj t appendFile]\<rparr>
               else if saveFileBeforeRun cfg
               then (emit SaveDocument s1)\<lparr>waiting := waiting s1 @ [AfterSaveObj t appendFile]\<rparr>
               else executeCommandObj h t appendFile s1)
      else (let content = phpText (languageId s)
                            (if selectionIsEmpty ed \<or> ignoreSelection cfg
                             then documentText ed else selectionText ed);
                s1 = s\<lparr>isTmpFile := True\<rparr>;
                folder = (if isUntitled ed then cwd s1 else Some (dirname h (fileName ed)))
            in case createRandomFile h content folder fileExtension s1 of
                 (Some e, s2) \<Rightarrow> throw e s2
               | (None, s2) \<Rightarrow> executeCommandObj h t appendFile s2))"

subsection \<open>Entry points\<close>

definition run :: "host \<Rightarrow> string option \<Rightarrow> session \<Rightarrow> session" where
  "run h lang s =
     (if isRunning s then emit (ShowInformationMessage ''Code is already running!'') s
      else case activeTextEditor h of
             None \<Rightarrow> emit (ShowInformationMessage ''No code found or selected.'') s
           | Some ed \<Rightarrow>
               (let s1 = initialize h s;
                    fileExtension = getFileExtension (fileName ed);
                    (executor, lang') =
                       getExecutor (sessionConfig s1) (documentLanguageId ed) lang fileExtension;
                    s2 = s1\<lparr>languageId := Some lang'\<rparr>
                in case executor of
                     Str e \<Rightarrow> getCodeFileAndExecute h ed fileExtension e True s2
                   | Obj t \<Rightarrow> getCodeFileAndExecuteObj h ed fileExtension t True s2
                   | _ \<Rightarrow> emit (ShowInformationMessage ''Code language not supported or defined.'') s2))"

definition runCustomCommand :: "host \<Rightarrow> session \<Rightarrow> session" where
  "runCustomCommand h s =
     (if isRunning s then emit (ShowInformationMessage ''Code is already running!'') s
      else (let s1 = initialize h s;
                executor = customCommand (sessionConfig s1)
            in case activeTextEditor h of
                 Some ed \<Rightarrow>
                   getCodeFileAndExecute h ed (getFileExtension (fileName ed)) executor False s1
               | None \<Rightarrow> executeCommand h executor False s1))"

text \<open>
  \<open>runByLanguage\<close> shows the quick pick; its answer arrives later and calls \<open>run\<close> with
  the language picked, or does nothing when the pick was dismissed.
\<close>

definition runByLanguage :: "session \<Rightarrow> session" where
  "runByLanguage s = emit ShowQuickPick (emit (SendEvent ''runByLanguage'') s)"

definition onQuickPick :: "host \<Rightarrow> string option \<Rightarrow> session \<Rightarrow> session" where
  "onQuickPick h picked s = (case picked of None \<Rightarrow> s | Some l \<Rightarrow> run h (Some l) s)"

text \<open>An asynchronous completion: the continuation at position \<open>i\<close> runs and is removed.\<close>

definition resume :: "host \<Rightarrow> nat \<Rightarrow> session \<Rightarrow> session" where
  "resume h i s =
     (if i < length (waiting s)
      then (let s1 = s\<lparr>waiting := take i (waiting s) @ drop (Suc i) (waiting s)\<rparr>
            in case waiting s ! i of
                 AfterSave executor appendFile \<Rightarrow> executeCommand h executor appendFile s1
               | AfterSaveObj t appendFile \<Rightarrow> executeCommandObj h t appendFile s1
               | AfterClear command \<Rightarrow> sendToTerminal h command s1)
      else s)"

text \<open>
  The events a session receives, each with the host as it is when the event is handled.
\<close>

datatype event =
    Run "string option"
  | RunCustomCommand
  | RunByLanguage
  | QuickPick "string option"
  | Stop
  | Resume nat
  | ProcessData nat string
  | ProcessClose nat string string
  | DidCloseTerminal

fun handle :: "host \<Rightarrow> event \<Rightarrow> session \<Rightarrow> session" where
  "handle h (Run lang) s = run h lang s"
| "handle h RunCustomCommand s = runCustomCommand h s"
| "handle h RunByLanguage s = runByLanguage s"
| "handle h (QuickPick picked) s = onQuickPick h picked s"
| "handle h Stop s = stop s"
| "handle h (Resume i) s = resume h i s"
| "handle h (ProcessData pid chunk) s = onProcessData pid chunk s"
| "handle h (ProcessClose pid code elapsedTime) s = onProcessClose pid code elapsedTime s"
| "handle h DidCloseTerminal s = onDidCloseTerminal s"

fun handleAll :: "(host \<times> event) list \<Rightarrow> session \<Rightarrow> session" where
  "handleAll [] s = s"
| "handleAll ((h, e) # es) s = handleAll es (handle h e s)"

section \<open>Functions of the specification\<close>

text \<open>
  The functions of this section are not translations of the source. They say in the
  words of the specification what the source is claimed to compute, by direct recursion
  over the text, and the theorems compare them with the functions above.
\<close>

text \<open>
  Every occurrence of the text \<open>p\<close>, found from left to right, is replaced by \<open>v\<close>;
  in \<open>substEvery\<close> the replacement is expanded by \<open>getSubstitution\<close> with the text
  \<open>pre\<close> before the occurrence and the text after it.
\<close>

function replaceEvery :: "string \<Rightarrow> string \<Rightarrow> string \<Rightarrow> string" where
  "replaceEvery p v [] = []"
| "replaceEvery p v (c # cs) =
     (if p \<noteq> [] \<and> prefix p (c # cs)
      then v @ replaceEvery p v (drop (length p) (c # cs))
      else c # replaceEvery p v cs)"
  by pat_completeness auto
termination
  by (relation "measure (\<lambda>(p, v, s). length s)") (auto simp: neq_Nil_conv)

function substEvery :: "string \<Rightarrow> string \<Rightarrow> string \<Rightarrow> string \<Rightarrow> string" where
  "substEvery p v pre [] = []"
| "substEvery p v pre (c # cs) =
     (if p \<noteq> [] \<and> prefix p (c # cs)
      then getSubstitution p pre (drop (length p) (c # cs)) [] v
             @ substEvery p v (pre @ p) (drop (length p) (c # cs))
      else c # substEvery p v (pre @ [c]) cs)"
  by pat_completeness auto
termination
  by (relation "measure (\<lambda>(p, v, pre, s). length s)") (auto simp: neq_Nil_conv)

text \<open>Only the first occurrence of \<open>p\<close> is replaced by \<open>v\<close>.\<close>

fun replaceOnce :: "string \<Rightarrow> string \<Rightarrow> string \<Rightarrow> string" where
  "replaceOnce p v [] = []"
| "replaceOnce p v (c # cs) =
     (if prefix p (c # cs) then v @ drop (length p) (c # cs) else c # replaceOnce p v cs)"

text \<open>
  The conditional chain of PowerShell: the first \<open>&&\<close> becomes \<open>; if ($?) {\<close> and every
  later one \<open>} ; if ($?) {\<close>. \<open>first\<close> tells that no \<open>&&\<close> has been met yet.
\<close>

fun ampChain :: "bool \<Rightarrow> string \<Rightarrow> string" where
  "ampChain first (a # b # s) =
     (if a = CHR ''&'' \<and> b = CHR ''&''
      then (if first then ''; if ($?) {'' else ''} ; if ($?) {'') @ ampChain False s
      else a # ampChain first (b # s))"
| "ampChain first s = s"

text \<open>
  The path of a POSIX-style shell on Windows: a drive-letter prefix \<open>X:\\<close> becomes
  \<open>root\<close>, the letter in lower case and a slash; every other backslash becomes a slash.
\<close>

definition isLetter :: "char \<Rightarrow> bool" where
  "isLetter c = (((65::nat) \<le> of_char c \<and> (of_char c :: nat) \<le> 90)
                 \<or> ((97::nat) \<le> of_char c \<and> (of_char c :: nat) \<le> 122))"

definition toSlash :: "char \<Rightarrow> char" where
  "toSlash c = (if c = CHR 0x5C then CHR ''/'' else c)"

fun posixPath :: "string \<Rightarrow> string \<Rightarrow> string" where
  "posixPath root (d # c # b # s) =
     (if isLetter d \<and> c = CHR '':'' \<and> b = CHR 0x5C
      then root @ [lowerChar d] @ ''/'' @ posixPath root s
      else toSlash d # posixPath root (c # b # s))"
| "posixPath root s = map toSlash s"

text \<open>
  \<open>dotOnLine s\<close>: a dot stands in \<open>s\<close> before any line terminator. \<open>sepThenDot s\<close>: some
  separator of \<open>s\<close> is followed, on the same line, by a dot.
\<close>

definition isSeparator :: "char \<Rightarrow> bool" where
  "isSeparator c = (c = CHR ''/'' \<or> c = CHR 0x5C)"

fun dotOnLine :: "string \<Rightarrow> bool" where
  "dotOnLine [] = False"
| "dotOnLine (c # cs) = (c = CHR ''.'' \<or> (\<not> isLineTerminator c \<and> dotOnLine cs))"

fun sepThenDot :: "string \<Rightarrow> bool" where
  "sepThenDot [] = False"
| "sepThenDot (c # cs) = ((isSeparator c \<and> dotOnLine cs) \<or> sepThenDot cs)"

definition isLowerAlpha :: "char \<Rightarrow> bool" where
  "isLowerAlpha c = ((97::nat) \<le> of_char c \<and> (of_char c :: nat) \<le> 122)"

text \<open>The number of dollars of a text.\<close>

definition dollars :: "string \<Rightarrow> nat" where
  "dollars s = length (filter (\<lambda>c. c = CHR ''$'') s)"

section \<open>Examples\<close>

text \<open>
  A configuration, an editor and a host on which the theorems are instantiated:
  a saved Python file on a POSIX host, run in the output channel after the file is saved.
  \<open>dirname\<close> is that of a POSIX path that does not end in a separator.
\<close>

definition exampleConfig :: config where
  "exampleConfig =
     \<lparr> cfgCwd = None, fileDirectoryAsCwd = False, ignoreSelection = False,
       saveAllFilesBeforeRun = False, saveFileBeforeRun = True, runInTerminal = False,
       preserveFocus = True, clearPreviousOutput = False, showExecutionMessage = True,
       customCommand = ''echo Hello'',
       executorMap = [(''python'', Str ''python -u''), (''php'', Str ''php'')],
       executorMapByFileExtension = [(''.vbs'', Str ''cscript //Nologo'')],
       languageIdToFileExtensionMap = [(''bat'', Str ''.bat'')],
       defaultLanguage = ''php'', terminalRoot = None \<rparr>"

definition exampleEditor :: editor where
  "exampleEditor =
     \<lparr> fileName = ''/home/u/a.py'', isUntitled = False, documentLanguageId = ''python'',
       documentText = ''print(1)'', selectionIsEmpty = True, selectionText = [] \<rparr>"

definition exampleHost :: host where
  "exampleHost =
     \<lparr> activeTextEditor = Some exampleEditor, rootPath = None, platform = ''linux'',
       windowsShell = None, tmpDir = ''/tmp'',
       dirname = (\<lambda>p. if CHR ''/'' \<notin> set p then ''.''
                      else if CHR ''/'' \<notin> set (drop 1 p) then ''/''
                      else rev (drop 1 (dropWhile (\<lambda>c. c \<noteq> CHR ''/'') (rev p)))),
       pathJoin = (\<lambda>a b. a @ ''/'' @ b),
       random36 = ''0.i'', writeFails = (\<lambda>p. False), currentConfig = exampleConfig \<rparr>"

text \<open>
  The same host with the editor on a makefile, a saved file without extension, and
  with the editor on a document whose language id is \<open>constructor\<close>.
\<close>

definition makefileConfig :: config where
  "makefileConfig = exampleConfig\<lparr>executorMap := [(''makefile'', Str ''make -f'')]\<rparr>"

definition makefileHost :: host where
  "makefileHost =
     exampleHost\<lparr>activeTextEditor :=
                   Some (exampleEditor\<lparr>fileName := ''/home/u/Makefile'',
                                        documentLanguageId := ''makefile''\<rparr>),
                 currentConfig := makefileConfig\<rparr>"

definition constructorHost :: host where
  "constructorHost =
     exampleHost\<lparr>activeTextEditor := Some (exampleEditor\<lparr>documentLanguageId := ''constructor''\<rparr>)\<rparr>"

section \<open>Lemmas on the matcher\<close>

declare replaceAllFrom.simps [simp del]

subsection \<open>The greedy star and the search for a match\<close>

lemma star_not_None: "(\<And>s'. k s' \<noteq> None) \<Longrightarrow> star a s k \<noteq> None"
  by (induction s) (auto split: option.splits)

lemma star_None_iff:
  "star a s k = None \<longleftrightarrow> (\<forall>n \<le> length (takeWhile (atomMatches a) s). k (drop n s) = None)"
proof (induction s)
  case Nil
  then show ?case by simp
next
  case (Cons c cs)
  show ?case
  proof (cases "atomMatches a c")
    case True
    have "(\<forall>n \<le> Suc (length (takeWhile (atomMatches a) cs)). k (drop n (c # cs)) = None)
          \<longleftrightarrow> k (c # cs) = None \<and> (\<forall>n \<le> length (takeWhile (atomMatches a) cs). k (drop n cs) = None)"
      (is "?L \<longleftrightarrow> ?R")
    proof
      assume l: ?L
      have "k (drop 0 (c # cs)) = None" using l by blast
      moreover have "\<forall>n \<le> length (takeWhile (atomMatches a) cs). k (drop n cs) = None"
      proof (intro allI impI)
        fix n assume "n \<le> length (takeWhile (atomMatches a) cs)"
        then have "k (drop (Suc n) (c # cs)) = None" using l by (meson Suc_le_mono)
        then show "k (drop n cs) = None" by simp
      qed
      ultimately show ?R by simp
    next
      assume r: ?R
      show ?L
      proof (intro allI impI)
        fix n assume n: "n \<le> Suc (length (takeWhile (atomMatches a) cs))"
        show "k (drop n (c # cs)) = None"
        proof (cases n)
          case 0 then show ?thesis using r by simp
        next
          case (Suc m) then show ?thesis using r n by simp
        qed
      qed
    qed
    then show ?thesis using True Cons by (auto split: option.splits)
  next
    case False
    then show ?thesis by simp
  qed
qed

lemma star_Some_D:
  "star a s k = Some r \<Longrightarrow> \<exists>n \<le> length s. k (drop n s) = Some r"
proof (induction s)
  case Nil
  then show ?case by simp
next
  case (Cons c cs)
  show ?case
  proof (cases "atomMatches a c \<and> star a cs k \<noteq> None")
    case True
    then have "star a cs k = Some r" using Cons.prems by (auto split: option.splits)
    then obtain n where "n \<le> length cs" "k (drop n cs) = Some r" using Cons.IH by blast
    then have "Suc n \<le> length (c # cs) \<and> k (drop (Suc n) (c # cs)) = Some r" by simp
    then show ?thesis by blast
  next
    case False
    then have "k (c # cs) = Some r" using Cons.prems by (auto split: option.splits if_splits)
    then have "0 \<le> length (c # cs) \<and> k (drop 0 (c # cs)) = Some r" by simp
    then show ?thesis by blast
  qed
qed

lemma search_None_iff:
  "search r i s = None \<longleftrightarrow> (\<forall>j \<le> length s. matchAt r (drop j s) = None)"
proof (induction s arbitrary: i)
  case Nil
  then show ?case by (auto split: option.splits)
next
  case (Cons c cs)
  have "(\<forall>j \<le> Suc (length cs). matchAt r (drop j (c # cs)) = None)
        \<longleftrightarrow> matchAt r (c # cs) = None \<and> (\<forall>j \<le> length cs. matchAt r (drop j cs) = None)"
    (is "?L \<longleftrightarrow> ?R")
  proof
    assume l: ?L
    have "matchAt r (drop 0 (c # cs)) = None" using l by blast
    moreover have "\<forall>j \<le> length cs. matchAt r (drop j cs) = None"
    proof (intro allI impI)
      fix j assume "j \<le> length cs"
      then have "matchAt r (drop (Suc j) (c # cs)) = None" using l by (meson Suc_le_mono)
      then show "matchAt r (drop j cs) = None" by simp
    qed
    ultimately show ?R by simp
  next
    assume r: ?R
    show ?L
    proof (intro allI impI)
      fix j assume j: "j \<le> Suc (length cs)"
      show "matchAt r (drop j (c # cs)) = None"
      proof (cases j)
        case 0 then show ?thesis using r by simp
      next
        case (Suc m) then show ?thesis using r j by simp
      qed
    qed
  qed
  then show ?case using Cons[of "Suc i"] by (auto split: option.splits)
qed

lemma search_Some_D:
  "search r i s = Some (j, whole, caps) \<Longrightarrow>
     \<exists>n s'. n \<le> length s \<and> matchAt r (drop n s) = Some (s', caps)"
proof (induction s arbitrary: i)
  case Nil
  then show ?case by (auto split: option.splits)
next
  case (Cons c cs)
  show ?case
  proof (cases "matchAt r (c # cs)")
    case None
    then have "search r (Suc i) cs = Some (j, whole, caps)" using Cons.prems by simp
    then obtain n s' where "n \<le> length cs" "matchAt r (drop n cs) = Some (s', caps)"
      using Cons.IH by blast
    then have "Suc n \<le> length (c # cs) \<and> matchAt r (drop (Suc n) (c # cs)) = Some (s', caps)"
      by simp
    then show ?thesis by blast
  next
    case (Some a)
    then obtain s' where "matchAt r (c # cs) = Some (s', caps)"
      using Cons.prems by (cases a) auto
    then have "0 \<le> length (c # cs) \<and> matchAt r (drop 0 (c # cs)) = Some (s', caps)" by simp
    then show ?thesis by blast
  qed
qed

subsection \<open>Patterns of a fixed text\<close>

lemma matcher_literal:
  "matcher (literal p) s caps k = (if prefix p s then k (drop (length p) s) caps else None)"
proof (induction p arbitrary: s)
  case Nil
  then show ?case by (simp add: literal_def)
next
  case (Cons a p)
  then show ?case by (cases s) (auto simp: literal_def)
qed

lemma matchAt_literal:
  "matchAt (literal p) s = (if prefix p s then Some (drop (length p) s, []) else None)"
  by (simp add: matchAt_def matcher_literal)

lemma prefix_take_eq: "prefix p s \<Longrightarrow> take (length p) s = p"
  by (auto simp: prefix_def)

lemma replaceAllFrom_literal:
  "p \<noteq> [] \<Longrightarrow> replaceAllFrom (literal p) (Template v) pre s = substEvery p v pre s"
proof (induction p v pre s rule: substEvery.induct)
  case (1 p v pre)
  then show ?case by (simp add: replaceAllFrom.simps[of _ _ _ "[]"] matchAt_literal)
next
  case (2 p v pre c cs)
  show ?case
  proof (cases "prefix p (c # cs)")
    case True
    have len: "length (drop (length p) (c # cs)) < length (c # cs)" using 2(3) by simp
    have tk: "take (length (c # cs) - length (drop (length p) (c # cs))) (c # cs) = p"
      using True prefix_take_eq[OF True] prefix_length_le[OF True] by simp
    have ih: "replaceAllFrom (literal p) (Template v) (pre @ p) (drop (length p) (c # cs))
              = substEvery p v (pre @ p) (drop (length p) (c # cs))"
      using 2(1) 2(3) True by blast
    show ?thesis
      apply (subst replaceAllFrom.simps)
      apply (simp only: matchAt_literal True if_True option.case prod.case len tk ih)
      using True 2(3) by simp
  next
    case np: False
    have ih: "replaceAllFrom (literal p) (Template v) (pre @ [c]) cs = substEvery p v (pre @ [c]) cs"
      using 2(2) 2(3) np by blast
    show ?thesis
      apply (subst replaceAllFrom.simps)
      using np ih by (simp add: matchAt_literal)
  qed
qed

lemma getSubstitution_noDollar:
  "CHR ''$'' \<notin> set v \<Longrightarrow> getSubstitution m pre post caps v = v"
  by (induction m pre post caps v rule: getSubstitution.induct) auto

lemma substEvery_plain:
  "(\<And>m pre post. getSubstitution m pre post [] v = v) \<Longrightarrow> substEvery p v pre s = replaceEvery p v s"
  by (induction p v pre s rule: substEvery.induct) auto

lemma replaceAll_literal:
  "p \<noteq> [] \<Longrightarrow> replaceAll (literal p) (Template v) s = substEvery p v [] s"
  by (simp add: replaceAll_def replaceAllFrom_literal)

lemma replaceAll_literal_plain:
  "p \<noteq> [] \<Longrightarrow> (\<And>m pre post. getSubstitution m pre post [] v = v) \<Longrightarrow>
     replaceAll (literal p) (Template v) s = replaceEvery p v s"
  by (simp add: replaceAll_literal substEvery_plain)

lemma search_literal:
  "search (literal p) i s = None \<Longrightarrow> replaceOnce p v s = s"
  "p \<noteq> [] \<Longrightarrow> search (literal p) i s = Some (j, whole, caps) \<Longrightarrow>
     whole = p \<and> caps = [] \<and> i \<le> j \<and> prefix p (drop (j - i) s) \<and>
     replaceOnce p v s = take (j - i) s @ v @ drop (j - i + length p) s"
proof (induction s arbitrary: i)
  case Nil
  { case 1 then show ?case by simp }
  { case 2 then show ?case by (auto simp: matchAt_literal split: if_splits) }
next
  case (Cons c cs)
  { case 1
    then show ?case using Cons(1)[of "Suc i"]
      by (auto simp: matchAt_literal split: if_splits) }
  { case 2
    show ?case
    proof (cases "prefix p (c # cs)")
      case True
      then show ?thesis using 2 prefix_take_eq[OF True] prefix_length_le[OF True]
        by (auto simp: matchAt_literal)
    next
      case False
      then have s: "search (literal p) (Suc i) cs = Some (j, whole, caps)"
        using 2 by (simp add: matchAt_literal)
      from Cons(2)[OF 2(1) s] have ih: "whole = p" "caps = []" "Suc i \<le> j"
        "prefix p (drop (j - Suc i) cs)"
        "replaceOnce p v cs = take (j - Suc i) cs @ v @ drop (j - Suc i + length p) cs"
        by auto
      have j: "j - i = Suc (j - Suc i)" using ih(3) by simp
      show ?thesis using ih False by (simp add: j)
    qed }
qed

lemma replaceFirst_literal:
  assumes "\<And>m pre post. getSubstitution m pre post [] v = v" and "p \<noteq> []"
  shows "replaceFirst (literal p) (Template v) s = replaceOnce p v s"
proof (cases "search (literal p) 0 s")
  case None
  then show ?thesis using search_literal(1)[OF None] by (simp add: replaceFirst_def)
next
  case (Some a)
  obtain j whole caps where a: "a = (j, whole, caps)" by (cases a) auto
  from search_literal(2)[of p 0 s j whole caps v] Some a assms(2)
  show ?thesis by (simp add: replaceFirst_def assms(1))
qed

subsection \<open>The patterns of the path helpers\<close>

lemma inRange_single: "inRange c (d, d) \<longleftrightarrow> c = d"
proof -
  have "inRange c (d, d) \<longleftrightarrow> (of_char c :: nat) = of_char d" by (auto simp: inRange_def)
  then show ?thesis by simp
qed

lemma atomMatches_separator [simp]: "atomMatches separator c = isSeparator c"
  by (auto simp: separator_def isSeparator_def inRange_single)

lemma atomMatches_AnyChar: "atomMatches AnyChar c = (\<not> isLineTerminator c)"
  by simp

lemma matchAt_rxCodeBaseFile:
  "matchAt rxCodeBaseFile s =
     star AnyChar s (\<lambda>s1. case s1 of [] \<Rightarrow> None
        | c # cs \<Rightarrow> if isSeparator c
                    then star AnyChar cs (\<lambda>s2. Some (s2, [take (length cs - length s2) cs]))
                    else None)"
  by (simp add: matchAt_def rxCodeBaseFile_def cong: list.case_cong if_cong)

lemma matchAt_rxCodeFileDir:
  "matchAt rxCodeFileDir s =
     star AnyChar s (\<lambda>s1. case s1 of [] \<Rightarrow> None
        | c # cs \<Rightarrow> if isSeparator c
                    then star AnyChar cs (\<lambda>s2. Some (s2, [take (length s - length cs) s]))
                    else None)"
  by (simp add: matchAt_def rxCodeFileDir_def cong: list.case_cong if_cong)

lemma matchAt_rxCodeFileWithoutDirAndExt:
  "matchAt rxCodeFileWithoutDirAndExt s =
     star AnyChar s (\<lambda>s1. case s1 of [] \<Rightarrow> None
        | c # cs \<Rightarrow> if isSeparator c
                    then star AnyChar cs (\<lambda>s2.
                           case (case s2 of [] \<Rightarrow> None
                                 | d # ds \<Rightarrow> if d = CHR ''.''
                                             then star AnyChar ds (\<lambda>s3. Some (s3, [])) else None) of
                             None \<Rightarrow> None
                           | Some (s3, caps) \<Rightarrow> Some (s2, caps @ [take (length cs - length s2) cs]))
                    else None)"
  by (simp add: matchAt_def rxCodeFileWithoutDirAndExt_def cong: list.case_cong if_cong option.case_cong)


lemma sep_search_None_iff:
  assumes m: "\<And>t. matchAt r t = star AnyChar t (K t)"
    and k: "\<And>t c cs. K t (c # cs) = None \<longleftrightarrow> \<not> (isSeparator c \<and> Q cs)"
    and k0: "\<And>t. K t [] = None"
  shows "search r i s = None \<longleftrightarrow> \<not> (\<exists>u c cs. s = u @ c # cs \<and> isSeparator c \<and> Q cs)"
proof
  assume none: "search r i s = None"
  show "\<not> (\<exists>u c cs. s = u @ c # cs \<and> isSeparator c \<and> Q cs)"
  proof
    assume "\<exists>u c cs. s = u @ c # cs \<and> isSeparator c \<and> Q cs"
    then obtain u c cs where s: "s = u @ c # cs" and c: "isSeparator c" "Q cs" by blast
    have "length u \<le> length s" using s by simp
    then have "matchAt r (drop (length u) s) = None" using none search_None_iff by blast
    then have "star AnyChar (c # cs) (K (c # cs)) = None" using s m by simp
    then have "K (c # cs) (drop 0 (c # cs)) = None" unfolding star_None_iff by blast
    then show False using k c by simp
  qed
next
  assume no: "\<not> (\<exists>u c cs. s = u @ c # cs \<and> isSeparator c \<and> Q cs)"
  have "matchAt r (drop j s) = None" for j
  proof -
    have "K (drop j s) (drop n (drop j s)) = None" for n
    proof (cases "drop n (drop j s)")
      case Nil
      then show ?thesis using k0 by simp
    next
      case (Cons x xs)
      then have "s = take (n + j) s @ x # xs"
        by (metis append_take_drop_id drop_drop)
      then have "\<not> (isSeparator x \<and> Q xs)" using no by blast
      then show ?thesis using k Cons by simp
    qed
    then show ?thesis using m star_None_iff by simp
  qed
  then show "search r i s = None" using search_None_iff by blast
qed

lemma some_separator_iff:
  "(\<exists>u c cs. s = u @ c # cs \<and> isSeparator c) \<longleftrightarrow> (\<exists>c \<in> set s. isSeparator c)"
  by (metis in_set_conv_decomp)

lemma search_rxCodeBaseFile_None:
  "search rxCodeBaseFile i s = None \<longleftrightarrow> (\<forall>c \<in> set s. \<not> isSeparator c)"
proof -
  have "search rxCodeBaseFile i s = None \<longleftrightarrow> \<not> (\<exists>u c cs. s = u @ c # cs \<and> isSeparator c \<and> True)"
    by (rule sep_search_None_iff[where K = "\<lambda>t s1. case s1 of [] \<Rightarrow> None
        | c # cs \<Rightarrow> if isSeparator c
                    then star AnyChar cs (\<lambda>s2. Some (s2, [take (length cs - length s2) cs]))
                    else None"])
       (auto simp: matchAt_rxCodeBaseFile star_None_iff)
  then show ?thesis using some_separator_iff[of s] by auto
qed

lemma search_rxCodeFileDir_None:
  "search rxCodeFileDir i s = None \<longleftrightarrow> (\<forall>c \<in> set s. \<not> isSeparator c)"
proof -
  have "search rxCodeFileDir i s = None \<longleftrightarrow> \<not> (\<exists>u c cs. s = u @ c # cs \<and> isSeparator c \<and> True)"
    by (rule sep_search_None_iff[where K = "\<lambda>t s1. case s1 of [] \<Rightarrow> None
        | c # cs \<Rightarrow> if isSeparator c
                    then star AnyChar cs (\<lambda>s2. Some (s2, [take (length t - length cs) t]))
                    else None"])
       (auto simp: matchAt_rxCodeFileDir star_None_iff)
  then show ?thesis using some_separator_iff[of s] by auto
qed

lemma star_dot_None_iff:
  assumes "\<And>s2. k s2 = None \<longleftrightarrow> \<not> (\<exists>ds. s2 = CHR ''.'' # ds)"
  shows "star AnyChar cs k = None \<longleftrightarrow> \<not> dotOnLine cs"
proof (induction cs)
  case Nil
  then show ?case using assms by simp
next
  case (Cons c cs)
  have "k (c # cs) = None \<longleftrightarrow> c \<noteq> CHR ''.''" using assms by simp
  then show ?case using Cons by (auto split: option.splits)
qed

lemma sepThenDot_iff:
  "sepThenDot s \<longleftrightarrow> (\<exists>u c cs. s = u @ c # cs \<and> isSeparator c \<and> dotOnLine cs)"
proof (induction s)
  case Nil
  then show ?case by simp
next
  case (Cons x xs)
  show ?case
  proof
    assume "sepThenDot (x # xs)"
    then consider "isSeparator x \<and> dotOnLine xs" | "sepThenDot xs" by auto
    then show "\<exists>u c cs. x # xs = u @ c # cs \<and> isSeparator c \<and> dotOnLine cs"
    proof cases
      case 1
      then have "x # xs = [] @ x # xs \<and> isSeparator x \<and> dotOnLine xs" by simp
      then show ?thesis by blast
    next
      case 2
      then obtain u c cs where "xs = u @ c # cs" "isSeparator c" "dotOnLine cs" using Cons by blast
      then have "x # xs = (x # u) @ c # cs \<and> isSeparator c \<and> dotOnLine cs" by simp
      then show ?thesis by blast
    qed
  next
    assume "\<exists>u c cs. x # xs = u @ c # cs \<and> isSeparator c \<and> dotOnLine cs"
    then obtain u c cs where d: "x # xs = u @ c # cs" "isSeparator c" "dotOnLine cs" by blast
    show "sepThenDot (x # xs)"
    proof (cases u)
      case Nil
      then show ?thesis using d by simp
    next
      case (Cons y ys)
      then have "xs = ys @ c # cs" using d by simp
      then have "sepThenDot xs" using d Cons.IH by blast
      then show ?thesis by simp
    qed
  qed
qed

lemma search_rxCodeFileWithoutDirAndExt_None:
  "search rxCodeFileWithoutDirAndExt i s = None \<longleftrightarrow> \<not> sepThenDot s"
proof -
  let ?k2 = "\<lambda>cs s2. case (case s2 of [] \<Rightarrow> None
                                 | d # ds \<Rightarrow> if d = CHR ''.''
                                             then star AnyChar ds (\<lambda>s3. Some (s3, [])) else None) of
                             None \<Rightarrow> None
                           | Some (s3, caps) \<Rightarrow> Some (s2, caps @ [take (length cs - length s2) cs])"
  have k2: "?k2 cs s2 = None \<longleftrightarrow> \<not> (\<exists>ds. s2 = CHR ''.'' # ds)" for cs s2
  proof (cases s2)
    case Nil
    then show ?thesis by simp
  next
    case (Cons d ds)
    have "star AnyChar ds (\<lambda>s3. Some (s3, [])) \<noteq> None" by (rule star_not_None) simp
    then show ?thesis using Cons by (auto split: option.splits)
  qed
  have inner: "star AnyChar cs (?k2 cs) = None \<longleftrightarrow> \<not> dotOnLine cs" for cs
    by (rule star_dot_None_iff) (rule k2)
  have "search rxCodeFileWithoutDirAndExt i s = None
        \<longleftrightarrow> \<not> (\<exists>u c cs. s = u @ c # cs \<and> isSeparator c \<and> dotOnLine cs)"
    by (rule sep_search_None_iff[where K = "\<lambda>t s1. case s1 of [] \<Rightarrow> None
        | c # cs \<Rightarrow> if isSeparator c then star AnyChar cs (?k2 cs) else None"])
       (simp_all add: matchAt_rxCodeFileWithoutDirAndExt inner)
  then show ?thesis by (simp add: sepThenDot_iff)
qed

lemma drop_Cons_shape: "drop n t = c # cs \<Longrightarrow> cs = drop (Suc n) t"
  by (metis drop_Suc tl_drop list.sel(3))

lemma matchAt_rxCodeBaseFile_caps:
  assumes "matchAt rxCodeBaseFile t = Some (s', caps)"
  shows "\<exists>a b. caps = [take a (drop b t)]"
proof -
  from assms obtain n1 where k: "(case drop n1 t of [] \<Rightarrow> None
        | c # cs \<Rightarrow> if isSeparator c
                    then star AnyChar cs (\<lambda>s2. Some (s2, [take (length cs - length s2) cs]))
                    else None) = Some (s', caps)"
    unfolding matchAt_rxCodeBaseFile using star_Some_D by fastforce
  then obtain c cs where d: "drop n1 t = c # cs"
    and i: "star AnyChar cs (\<lambda>s2. Some (s2, [take (length cs - length s2) cs])) = Some (s', caps)"
    by (auto split: list.splits if_splits)
  from star_Some_D[OF i] obtain n2 where "caps = [take (length cs - length (drop n2 cs)) cs]" by auto
  then show ?thesis using drop_Cons_shape[OF d] by blast
qed

lemma matchAt_rxCodeFileDir_caps:
  assumes "matchAt rxCodeFileDir t = Some (s', caps)"
  shows "\<exists>a b. caps = [take a (drop b t)]"
proof -
  from assms obtain n1 where k: "(case drop n1 t of [] \<Rightarrow> None
        | c # cs \<Rightarrow> if isSeparator c
                    then star AnyChar cs (\<lambda>s2. Some (s2, [take (length t - length cs) t]))
                    else None) = Some (s', caps)"
    unfolding matchAt_rxCodeFileDir using star_Some_D by fastforce
  then obtain c cs where d: "drop n1 t = c # cs"
    and i: "star AnyChar cs (\<lambda>s2. Some (s2, [take (length t - length cs) t])) = Some (s', caps)"
    by (auto split: list.splits if_splits)
  from star_Some_D[OF i] have "caps = [take (length t - length cs) (drop 0 t)]" by auto
  then show ?thesis by blast
qed

lemma matchAt_rxCodeFileWithoutDirAndExt_caps:
  assumes "matchAt rxCodeFileWithoutDirAndExt t = Some (s', caps)"
  shows "\<exists>a b. caps = [take a (drop b t)]"
proof -
  let ?k2 = "\<lambda>cs s2. case (case s2 of [] \<Rightarrow> None
                                 | d # ds \<Rightarrow> if d = CHR ''.''
                                             then star AnyChar ds (\<lambda>s3. Some (s3, [])) else None) of
                             None \<Rightarrow> None
                           | Some (s3, caps) \<Rightarrow> Some (s2, caps @ [take (length cs - length s2) cs])"
  from assms obtain n1 where k: "(case drop n1 t of [] \<Rightarrow> None
        | c # cs \<Rightarrow> if isSeparator c then star AnyChar cs (?k2 cs) else None) = Some (s', caps)"
    unfolding matchAt_rxCodeFileWithoutDirAndExt using star_Some_D by fastforce
  then obtain c cs where d: "drop n1 t = c # cs"
    and i: "star AnyChar cs (?k2 cs) = Some (s', caps)"
    by (auto split: list.splits if_splits)
  from star_Some_D[OF i] obtain n2 where k2: "?k2 cs (drop n2 cs) = Some (s', caps)" by blast
  then obtain d ds s3 caps0 where "drop n2 cs = d # ds"
    and l: "star AnyChar ds (\<lambda>s3. Some (s3, [])) = Some (s3, caps0)"
    and c: "caps = caps0 @ [take (length cs - length (drop n2 cs)) cs]"
    by (auto split: list.splits if_splits option.splits)
  from star_Some_D[OF l] have "caps0 = []" by auto
  then show ?thesis using c drop_Cons_shape[OF d] by blast
qed

lemma matchGroup_cases:
  assumes "\<And>t s' caps. matchAt r t = Some (s', caps) \<Longrightarrow> \<exists>a b. caps = [take a (drop b t)]"
  shows "(matchGroup f r = Inl TypeError \<and> search r 0 f = None)
         \<or> (\<exists>w a b. jsMatch f r = Some [w, take a (drop b f)] \<and> matchGroup f r = Inr (take a (drop b f)))"
proof (cases "search r 0 f")
  case None
  then show ?thesis by (simp add: matchGroup_def jsMatch_def)
next
  case (Some x)
  obtain j whole caps where x: "x = (j, whole, caps)" by (cases x) auto
  from search_Some_D[of r 0 f j whole caps] Some x
  obtain n s' where "matchAt r (drop n f) = Some (s', caps)" by blast
  from assms[OF this] obtain a b where "caps = [take a (drop b (drop n f))]" by blast
  then have "caps = [take a (drop (b + n) f)]" by simp
  then show ?thesis using Some x by (auto simp: matchGroup_def jsMatch_def)
qed

lemma getCodeBaseFile_cases:
  "(getCodeBaseFile f = Inl TypeError \<and> search rxCodeBaseFile 0 f = None)
   \<or> (\<exists>w a b. jsMatch f rxCodeBaseFile = Some [w, take a (drop b f)]
         \<and> getCodeBaseFile f = Inr (take a (drop b f)))"
  unfolding getCodeBaseFile_def
  by (rule matchGroup_cases) (rule matchAt_rxCodeBaseFile_caps)

lemma getCodeFileDir_cases:
  "(getCodeFileDir f = Inl TypeError \<and> search rxCodeFileDir 0 f = None)
   \<or> (\<exists>w a b. jsMatch f rxCodeFileDir = Some [w, take a (drop b f)]
         \<and> getCodeFileDir f = Inr (take a (drop b f)))"
  unfolding getCodeFileDir_def
  by (rule matchGroup_cases) (rule matchAt_rxCodeFileDir_caps)

lemma getCodeFileWithoutDirAndExt_cases:
  "(getCodeFileWithoutDirAndExt f = Inl TypeError \<and> search rxCodeFileWithoutDirAndExt 0 f = None)
   \<or> (\<exists>w a b. jsMatch f rxCodeFileWithoutDirAndExt = Some [w, take a (drop b f)]
         \<and> getCodeFileWithoutDirAndExt f = Inr (take a (drop b f)))"
  unfolding getCodeFileWithoutDirAndExt_def
  by (rule matchGroup_cases) (rule matchAt_rxCodeFileWithoutDirAndExt_caps)

lemma getCodeBaseFile_throws_iff:
  "getCodeBaseFile f = Inl TypeError \<longleftrightarrow> (\<forall>c \<in> set f. \<not> isSeparator c)"
  using getCodeBaseFile_cases[of f] search_rxCodeBaseFile_None[of 0 f] by (auto simp: jsMatch_def)

lemma getCodeFileDir_throws_iff:
  "getCodeFileDir f = Inl TypeError \<longleftrightarrow> (\<forall>c \<in> set f. \<not> isSeparator c)"
  using getCodeFileDir_cases[of f] search_rxCodeFileDir_None[of 0 f] by (auto simp: jsMatch_def)

lemma getCodeFileWithoutDirAndExt_throws_iff:
  "getCodeFileWithoutDirAndExt f = Inl TypeError \<longleftrightarrow> \<not> sepThenDot f"
  using getCodeFileWithoutDirAndExt_cases[of f] search_rxCodeFileWithoutDirAndExt_None[of 0 f] by (auto simp: jsMatch_def)

lemma sepThenDot_separator: "sepThenDot f \<Longrightarrow> \<exists>c \<in> set f. isSeparator c"
  by (induction f) auto

section \<open>The path helpers\<close>

text \<open>
  What the three path helpers do on every path. \<open>getCodeBaseFile\<close> and
  \<open>getCodeFileDir\<close> throw a \<open>TypeError\<close> exactly when the path has no separator, and
  \<open>getCodeFileWithoutDirAndExt\<close> throws exactly when no separator of the path is
  followed, on the same line, by a dot; a path without separator is such a path. When
  the pattern matches, the array of the match has two elements, so the branch that
  returns the path unchanged is never taken.
\<close>

lemma path_helpers_partial:
  "(getCodeBaseFile f = Inl TypeError \<longleftrightarrow> (\<forall>c \<in> set f. \<not> isSeparator c))
   \<and> (getCodeFileDir f = Inl TypeError \<longleftrightarrow> (\<forall>c \<in> set f. \<not> isSeparator c))
   \<and> (getCodeFileWithoutDirAndExt f = Inl TypeError \<longleftrightarrow> \<not> sepThenDot f)
   \<and> ((\<forall>c \<in> set f. \<not> isSeparator c) \<longrightarrow> \<not> sepThenDot f)
   \<and> (\<forall>r \<in> {rxCodeBaseFile, rxCodeFileDir, rxCodeFileWithoutDirAndExt}.
        \<forall>m. jsMatch f r = Some m \<longrightarrow> length m = 2)"
proof -
  have len: "\<forall>m. jsMatch f r = Some m \<longrightarrow> length m = 2"
    if "r \<in> {rxCodeBaseFile, rxCodeFileDir, rxCodeFileWithoutDirAndExt}" for r
    using that getCodeBaseFile_cases[of f] getCodeFileDir_cases[of f]
      getCodeFileWithoutDirAndExt_cases[of f]
    by (auto simp: jsMatch_def)
  have "(\<forall>c \<in> set f. \<not> isSeparator c) \<longrightarrow> \<not> sepThenDot f"
    using sepThenDot_separator by blast
  then show ?thesis
    using getCodeBaseFile_throws_iff getCodeFileDir_throws_iff
      getCodeFileWithoutDirAndExt_throws_iff len
    by blast
qed

text \<open>
  At \<open>Makefile\<close> the three helpers throw, and at \<open>/home/u/Makefile\<close> only the stem does.
\<close>

lemma path_helpers_at_makefile:
  "getCodeBaseFile ''Makefile'' = Inl TypeError
   \<and> getCodeFileDir ''Makefile'' = Inl TypeError
   \<and> getCodeFileWithoutDirAndExt ''Makefile'' = Inl TypeError
   \<and> getCodeFileWithoutDirAndExt ''/home/u/Makefile'' = Inl TypeError
   \<and> getCodeBaseFile ''/home/u/Makefile'' \<noteq> Inl TypeError"
  using path_helpers_partial[of "''Makefile''"] path_helpers_partial[of "''/home/u/Makefile''"]
  by (simp add: isSeparator_def isLineTerminator_def)

text \<open>
  Claim C10 does not hold of the code. The claim has the stem helper throw when the
  part of the path after the last separator has no dot, and the helper is documented to
  give the file name without its directory and extension. At \<open>/a.b/c\<close> that part is
  \<open>c\<close>, the base name that \<open>getCodeBaseFile\<close> returns, and it has no dot; the stem helper
  does not throw, as it does at \<open>/a/c\<close>: its pattern is not tied to the last separator,
  it matches at the first one, and the stem returned is \<open>a\<close>, a piece of the name of the
  directory. So the stem of a makefile in the directory \<open>proj.v2\<close> is \<open>proj\<close>.
\<close>

theorem stem_of_dotted_directory:
  "getCodeBaseFile ''/a.b/c'' = Inr ''c'' \<and> CHR ''.'' \<notin> set ''c''
   \<and> getCodeFileWithoutDirAndExt ''/a.b/c'' = Inr ''a''
   \<and> getCodeFileWithoutDirAndExt ''/a/c'' = Inl TypeError
   \<and> getCodeFileWithoutDirAndExt ''/home/u/proj.v2/Makefile'' = Inr ''proj''"
  by (simp add: getCodeBaseFile_def getCodeFileWithoutDirAndExt_def matchGroup_def jsMatch_def
      matchAt_def rxCodeBaseFile_def rxCodeFileWithoutDirAndExt_def isSeparator_def
      isLineTerminator_def)

text \<open>
  On a code file without extension the stem helper throws, and so does the builder,
  whatever the template.
\<close>

lemma build_throws_without_extension:
  "getFinalCommandToRunCodeFile None (Some ''/home/u/Makefile'') ''make -f'' True = Inl TypeError"
proof -
  have "getCodeFileWithoutDirAndExt ''/home/u/Makefile'' = Inl TypeError"
    by (simp add: getCodeFileWithoutDirAndExt_throws_iff isSeparator_def isLineTerminator_def)
  moreover have "getCodeFileDir ''/home/u/Makefile'' \<noteq> Inl TypeError"
    by (simp add: getCodeFileDir_throws_iff isSeparator_def)
  then obtain d where "getCodeFileDir ''/home/u/Makefile'' = Inr d"
    using getCodeFileDir_cases[of "''/home/u/Makefile''"] by blast
  ultimately show ?thesis
    by (simp add: getFinalCommandToRunCodeFile_def placeholders_def)
qed

section \<open>The executor resolver\<close>



text \<open>
  An id that names an inherited member of the map object is a hit of the first lookup:
  the member is returned and the id is kept.
\<close>

lemma getExecutor_inherited_member:
  "getExecutor exampleConfig ''constructor'' None ''.py''
     = (Obj ''function Object() { [native code] }'', ''constructor'')"
  by (simp add: getExecutor_def getProperty_def objectPrototype_def nativeFunction_def
      exampleConfig_def Let_def)

section \<open>The example session\<close>

lemmas eval_regex =
  matchGroup_def jsMatch_def matchAt_def isSeparator_def isLineTerminator_def
  rxCodeBaseFile_def rxCodeFileWithoutDirAndExt_def rxCodeFileDir_def rxTrailingSlash_def
  replaceFirst_def replaceAll_def replaceAllFrom.simps literal_def

lemma example_placeholders:
  "placeholders None ''/home/u/a.py'' =
     Inr [(''$workspaceRoot'', ''/home/u/''),
          (''$fileNameWithoutExt'', ''a''),
          (''$fullFileName'', quoteFileName ''/home/u/a.py''),
          (''$fileName'', ''a.py''),
          (''$dirWithoutTrailingSlash'', quoteFileName ''/home/u''),
          (''$dir'', quoteFileName ''/home/u/'')]"
  by (simp add: placeholders_def getCodeFileDir_def getCodeFileWithoutDirAndExt_def
      getCodeBaseFile_def getCodeFileDirWithoutTrailingSlash_def getWorkspaceRoot_def eval_regex)

lemma example_command:
  "getFinalCommandToRunCodeFile None (Some ''/home/u/a.py'') ''python -u'' True
     = Inr (''python -u '' @ quoteFileName ''/home/u/a.py'')"
  by (simp add: getFinalCommandToRunCodeFile_def example_placeholders applyPlaceholders_def
      replaceAll_def replaceAllFrom.simps matchAt_def literal_def quoteFileName_def)

lemma example_run:
  "\<not> isRunning s \<Longrightarrow>
   run exampleHost None s =
     s\<lparr>sessionConfig := exampleConfig, isTmpFile := False, codeFile := Some ''/home/u/a.py'',
       languageId := Some ''python'', cwd := Some ''/home/u'',
       waiting := waiting s @ [AfterSave ''python -u'' True],
       effects := effects s @ [SaveDocument]\<rparr>"
  by (simp add: run_def exampleHost_def exampleEditor_def exampleConfig_def
      initialize_def getFileExtension_def lastIndexOf_def getExecutor_def getProperty_def
      getCodeFileAndExecute_def emit_def Let_def)

lemma example_output_channel:
  "codeFile s = Some ''/home/u/a.py'' \<Longrightarrow> sessionConfig s = exampleConfig \<Longrightarrow>
   executeCommandInOutputChannel exampleHost ''python -u'' True s =
     s\<lparr>isRunning := True, process := Some (nextPid s), nextPid := Suc (nextPid s),
       live := live s @ [(nextPid s, True)],
       effects := effects s @
         [OutputShow True,
          OutputAppendLine (''[Running] python -u '' @ quoteFileName ''/home/u/a.py''),
          SendEvent ''python -u'',
          Exec (nextPid s) (''python -u '' @ quoteFileName ''/home/u/a.py'') (cwd s)]\<rparr>"
  by (simp add: executeCommandInOutputChannel_def example_command exampleHost_def
      exampleConfig_def emit_def Let_def)

lemma example_resume:
  "waiting s = AfterSave ''python -u'' True # w \<Longrightarrow> codeFile s = Some ''/home/u/a.py''
   \<Longrightarrow> sessionConfig s = exampleConfig \<Longrightarrow> \<not> isTmpFile s \<Longrightarrow>
   resume exampleHost 0 s =
     (s\<lparr>waiting := w\<rparr>)
       \<lparr>isRunning := True, process := Some (nextPid s), nextPid := Suc (nextPid s),
        live := live s @ [(nextPid s, True)],
        effects := effects s @
         [OutputShow True,
          OutputAppendLine (''[Running] python -u '' @ quoteFileName ''/home/u/a.py''),
          SendEvent ''python -u'',
          Exec (nextPid s) (''python -u '' @ quoteFileName ''/home/u/a.py'') (cwd s)]\<rparr>"
proof -
  assume a: "waiting s = AfterSave ''python -u'' True # w" "codeFile s = Some ''/home/u/a.py''"
    "sessionConfig s = exampleConfig" "\<not> isTmpFile s"
  have "runInTerminal (sessionConfig s) = False" by (simp add: a exampleConfig_def)
  then have "resume exampleHost 0 s =
      executeCommandInOutputChannel exampleHost ''python -u'' True (s\<lparr>waiting := w\<rparr>)"
    using a by (simp add: resume_def executeCommand_def)
  then show ?thesis using a by (simp add: example_output_channel)
qed

text \<open>The run of the makefile: the save completes, and the builder throws.\<close>

lemma makefile_run:
  "\<not> isRunning s \<Longrightarrow>
   run makefileHost None s =
     s\<lparr>sessionConfig := makefileConfig, isTmpFile := False, codeFile := Some ''/home/u/Makefile'',
       languageId := Some ''makefile'', cwd := Some ''/home/u'',
       waiting := waiting s @ [AfterSave ''make -f'' True],
       effects := effects s @ [SaveDocument]\<rparr>"
  by (simp add: run_def makefileHost_def makefileConfig_def exampleHost_def exampleEditor_def
      exampleConfig_def initialize_def getFileExtension_def lastIndexOf_def getExecutor_def
      getProperty_def getCodeFileAndExecute_def emit_def Let_def)

lemma makefile_resume:
  "waiting s = AfterSave ''make -f'' True # w \<Longrightarrow> codeFile s = Some ''/home/u/Makefile''
   \<Longrightarrow> sessionConfig s = makefileConfig \<Longrightarrow> \<not> isTmpFile s \<Longrightarrow>
   resume makefileHost 0 s =
     (s\<lparr>waiting := w\<rparr>)
       \<lparr>isRunning := True, uncaught := uncaught s @ [TypeError],
        effects := effects s @ [OutputShow True]\<rparr>"
proof -
  assume a: "waiting s = AfterSave ''make -f'' True # w" "codeFile s = Some ''/home/u/Makefile''"
    "sessionConfig s = makefileConfig" "\<not> isTmpFile s"
  have c: "runInTerminal makefileConfig = False" "clearPreviousOutput makefileConfig = False"
    "preserveFocus makefileConfig = True"
    by (simp_all add: makefileConfig_def exampleConfig_def)
  have r: "rootPath makefileHost = None" by (simp add: makefileHost_def exampleHost_def)
  have "resume makefileHost 0 s =
      executeCommandInOutputChannel makefileHost ''make -f'' True (s\<lparr>waiting := w\<rparr>)"
    using a c by (simp add: resume_def executeCommand_def)
  then show ?thesis
    using a c r
    by (simp add: executeCommandInOutputChannel_def build_throws_without_extension emit_def
        throw_def Let_def)
qed

text \<open>
  The run of the document whose language id names an inherited member: the member is
  the executor, and the builder throws at its first placeholder.
\<close>

lemma inherited_member_run:
  "uncaught (handleAll [(constructorHost, Run None), (constructorHost, Resume 0)]
               (initialSession exampleConfig)) = [TypeError]
   \<and> live (handleAll [(constructorHost, Run None), (constructorHost, Resume 0)]
              (initialSession exampleConfig)) = []
   \<and> isRunning (handleAll [(constructorHost, Run None), (constructorHost, Resume 0)]
                   (initialSession exampleConfig))"
  by (simp add: run_def constructorHost_def exampleHost_def exampleEditor_def
      exampleConfig_def initialize_def getFileExtension_def lastIndexOf_def getExecutor_def
      getProperty_def objectPrototype_def nativeFunction_def getCodeFileAndExecuteObj_def
      resume_def executeCommandObj_def executeCommandInOutputChannelObj_def
      getFinalCommandToRunCodeFileObj_def initialSession_def emit_def throw_def Let_def)

section \<open>The running flag\<close>

text \<open>
  Claim C7 does not hold of the code. \<open>run\<close> tests the running flag, but the flag is
  set only in \<open>executeCommandInOutputChannel\<close>, which runs after the save that
  \<open>saveFileBeforeRun\<close> asks for has completed. Two calls of \<open>run\<close> before the saves
  complete both pass the test, and both start a child process: on the example host the
  session then has two child processes that have not closed.
\<close>

theorem two_runs_in_flight:
  "live (handleAll [(exampleHost, Run None), (exampleHost, Run None),
                    (exampleHost, Resume 0), (exampleHost, Resume 0)]
           (initialSession exampleConfig)) = [(0, True), (1, True)]"
proof -
  let ?s0 = "initialSession exampleConfig"
  let ?s1 = "run exampleHost None ?s0"
  let ?s2 = "run exampleHost None ?s1"
  let ?s3 = "resume exampleHost 0 ?s2"
  let ?s4 = "resume exampleHost 0 ?s3"
  have s1: "?s1 = ?s0\<lparr>sessionConfig := exampleConfig, isTmpFile := False,
       codeFile := Some ''/home/u/a.py'', languageId := Some ''python'', cwd := Some ''/home/u'',
       waiting := [AfterSave ''python -u'' True], effects := [SaveDocument]\<rparr>"
    by (simp add: example_run initialSession_def)
  have s2: "?s2 = ?s0\<lparr>sessionConfig := exampleConfig, isTmpFile := False,
       codeFile := Some ''/home/u/a.py'', languageId := Some ''python'', cwd := Some ''/home/u'',
       waiting := [AfterSave ''python -u'' True, AfterSave ''python -u'' True],
       effects := [SaveDocument, SaveDocument]\<rparr>"
    unfolding s1 by (simp add: example_run initialSession_def)
  have s3: "live ?s3 = [(0, True)] \<and> waiting ?s3 = [AfterSave ''python -u'' True]
      \<and> codeFile ?s3 = Some ''/home/u/a.py'' \<and> sessionConfig ?s3 = exampleConfig
      \<and> \<not> isTmpFile ?s3 \<and> nextPid ?s3 = 1"
    unfolding s2 by (simp add: example_resume initialSession_def)
  have "live ?s4 = [(0, True), (1, True)]"
    using s3 by (simp add: example_resume)
  then show ?thesis by simp
qed

text \<open>
  What does hold: an entry point called while the flag is set only shows the notice, and
  only \<open>stop\<close> and the \<open>close\<close> event of a child process clear the flag.
\<close>

lemma run_rejected_while_running:
  "isRunning s \<Longrightarrow> run h lang s = emit (ShowInformationMessage ''Code is already running!'') s"
  by (simp add: run_def)

lemma runCustomCommand_rejected_while_running:
  "isRunning s \<Longrightarrow> runCustomCommand h s = emit (ShowInformationMessage ''Code is already running!'') s"
  by (simp add: runCustomCommand_def)

lemma isRunning_emit [simp]: "isRunning (emit e s) = isRunning s"
  by (simp add: emit_def)

lemma isRunning_throw [simp]: "isRunning (throw e s) = isRunning s"
  by (simp add: throw_def)

lemma isRunning_executeCommandInOutputChannel:
  "isRunning (executeCommandInOutputChannel h executor appendFile s)"
  by (simp add: executeCommandInOutputChannel_def Let_def split: sum.splits)

lemma isRunning_sendToTerminal:
  "isRunning (sendToTerminal h command s) = isRunning s"
  by (simp add: sendToTerminal_def Let_def split: option.splits)

lemma isRunning_executeCommandInTerminal:
  "isRunning (executeCommandInTerminal h executor appendFile s) = isRunning s"
  by (simp add: executeCommandInTerminal_def Let_def isRunning_sendToTerminal split: sum.splits)

lemma isRunning_executeCommand:
  "isRunning s \<Longrightarrow> isRunning (executeCommand h executor appendFile s)"
  by (simp add: executeCommand_def isRunning_executeCommandInOutputChannel
      isRunning_executeCommandInTerminal)

lemma isRunning_executeCommandInOutputChannelObj:
  "isRunning (executeCommandInOutputChannelObj h t appendFile s)"
  by (simp add: executeCommandInOutputChannelObj_def Let_def split: sum.splits)

lemma isRunning_executeCommandInTerminalObj:
  "isRunning (executeCommandInTerminalObj h t appendFile s) = isRunning s"
  by (simp add: executeCommandInTerminalObj_def Let_def isRunning_sendToTerminal split: sum.splits)

lemma isRunning_executeCommandObj:
  "isRunning s \<Longrightarrow> isRunning (executeCommandObj h t appendFile s)"
  by (simp add: executeCommandObj_def isRunning_executeCommandInOutputChannelObj
      isRunning_executeCommandInTerminalObj)

lemma isRunning_resume: "isRunning s \<Longrightarrow> isRunning (resume h i s)"
  by (simp add: resume_def Let_def isRunning_executeCommand isRunning_executeCommandObj
      isRunning_sendToTerminal split: pending.splits)

lemma flag_cleared_only_by_stop_or_close:
  assumes "isRunning s" and "\<not> isRunning (handle h e s)"
  shows "e = Stop \<or> (\<exists>pid code elapsedTime. e = ProcessClose pid code elapsedTime
                        \<and> pid \<in> fst ` set (live s))"
proof (cases e)
  case (ProcessClose pid code elapsedTime)
  have "map_of (live s) pid \<noteq> None"
    using assms ProcessClose by (cases "map_of (live s) pid") (auto simp: onProcessClose_def)
  then have "pid \<in> fst ` set (live s)" by (simp add: map_of_eq_None_iff)
  then show ?thesis using ProcessClose by blast
qed (use assms in \<open>auto simp: run_rejected_while_running runCustomCommand_rejected_while_running
       runByLanguage_def onQuickPick_def isRunning_resume onProcessData_def onDidCloseTerminal_def
       split: option.splits if_splits\<close>)

text \<open>
  The same gap after \<open>stop\<close>: the process that \<open>stop\<close> killed reports its \<open>close\<close> after
  the next run has started, and clears the flag of that run while its process is alive.
\<close>

lemma stale_close_clears_flag:
  "\<not> isRunning (handleAll [(exampleHost, Run None), (exampleHost, Resume 0), (exampleHost, Stop),
                          (exampleHost, Run None), (exampleHost, Resume 0),
                          (exampleHost, ProcessClose 0 ''null'' ''0.1'')]
                 (initialSession exampleConfig))
   \<and> live (handleAll [(exampleHost, Run None), (exampleHost, Resume 0), (exampleHost, Stop),
                      (exampleHost, Run None), (exampleHost, Resume 0),
                      (exampleHost, ProcessClose 0 ''null'' ''0.1'')]
             (initialSession exampleConfig)) = [(1, True)]"
proof -
  let ?s0 = "initialSession exampleConfig"
  let ?s1 = "run exampleHost None ?s0"
  let ?s2 = "resume exampleHost 0 ?s1"
  let ?s3 = "stop ?s2"
  let ?s4 = "run exampleHost None ?s3"
  let ?s5 = "resume exampleHost 0 ?s4"
  let ?s6 = "onProcessClose 0 ''null'' ''0.1'' ?s5"
  have s1: "?s1 = ?s0\<lparr>sessionConfig := exampleConfig, isTmpFile := False,
       codeFile := Some ''/home/u/a.py'', languageId := Some ''python'', cwd := Some ''/home/u'',
       waiting := [AfterSave ''python -u'' True], effects := [SaveDocument]\<rparr>"
    by (simp add: example_run initialSession_def)
  have s2: "live ?s2 = [(0, True)] \<and> waiting ?s2 = [] \<and> isRunning ?s2 \<and> nextPid ?s2 = 1
      \<and> \<not> isTmpFile ?s2"
    unfolding s1 by (simp add: example_resume initialSession_def)
  have s3: "live ?s3 = [(0, True)] \<and> waiting ?s3 = [] \<and> \<not> isRunning ?s3 \<and> nextPid ?s3 = 1"
    using s2 by (simp add: stop_def emit_def throw_def Let_def split: option.splits)
  have s4: "live ?s4 = [(0, True)] \<and> waiting ?s4 = [AfterSave ''python -u'' True]
      \<and> nextPid ?s4 = 1 \<and> codeFile ?s4 = Some ''/home/u/a.py''
      \<and> sessionConfig ?s4 = exampleConfig \<and> \<not> isTmpFile ?s4"
    using s3 by (simp add: example_run)
  have s5: "live ?s5 = [(0, True), (1, True)] \<and> isRunning ?s5 \<and> \<not> isTmpFile ?s5"
    using s4 by (simp add: example_resume)
  have "\<not> isRunning ?s6 \<and> live ?s6 = [(1, True)]"
    using s5 by (simp add: onProcessClose_def emit_def Let_def)
  then show ?thesis by simp
qed

text \<open>
  When the command builder throws, \<open>executeCommandInOutputChannel\<close> has set the flag and
  starts no process; the flag stays set until \<open>stop\<close>.
\<close>

lemma flag_left_set_by_throw:
  "getFinalCommandToRunCodeFile (rootPath h) (codeFile s) executor appendFile = Inl e \<Longrightarrow>
   isRunning (executeCommandInOutputChannel h executor appendFile s)
   \<and> process (executeCommandInOutputChannel h executor appendFile s) = process s
   \<and> live (executeCommandInOutputChannel h executor appendFile s) = live s
   \<and> uncaught (executeCommandInOutputChannel h executor appendFile s) = uncaught s @ [e]"
  by (simp add: executeCommandInOutputChannel_def emit_def throw_def Let_def)

text \<open>\<open>initialize\<close> leaves a working directory in every case.\<close>

lemma initialize_sets_cwd: "cwd (initialize h s) \<noteq> None"
  by (cases "cfgCwd (currentConfig h)"; cases "activeTextEditor h"; cases "rootPath h")
     (auto simp: initialize_def Let_def)

section \<open>Stopping\<close>

text \<open>
  Claim C8 does not hold of the code. \<open>stop\<close> goes by the running flag, and the flag
  does not tell whether a process runs. \<open>executeCommandInOutputChannel\<close> sets the flag
  before it builds the command and nothing clears it when the builder throws, as it
  does for the makefile. No process runs then, and \<open>stop\<close> is not a no-op: it clears
  the flag and reads the \<open>pid\<close> of a process that is not there, which throws; nothing
  is killed.
\<close>

theorem stop_after_failed_start:
  "isRunning (handleAll [(makefileHost, Run None), (makefileHost, Resume 0)]
                (initialSession makefileConfig))
   \<and> process (handleAll [(makefileHost, Run None), (makefileHost, Resume 0)]
                 (initialSession makefileConfig)) = None
   \<and> live (handleAll [(makefileHost, Run None), (makefileHost, Resume 0)]
              (initialSession makefileConfig)) = []
   \<and> effects (handleAll [(makefileHost, Run None), (makefileHost, Resume 0), (makefileHost, Stop)]
                 (initialSession makefileConfig))
       = [SaveDocument, OutputShow True, SendEvent ''stop'']
   \<and> uncaught (handleAll [(makefileHost, Run None), (makefileHost, Resume 0), (makefileHost, Stop)]
                  (initialSession makefileConfig))
       = [TypeError, TypeError]"
proof -
  let ?s0 = "initialSession makefileConfig"
  let ?s1 = "run makefileHost None ?s0"
  let ?s2 = "resume makefileHost 0 ?s1"
  have s1: "?s1 = ?s0\<lparr>sessionConfig := makefileConfig, isTmpFile := False,
       codeFile := Some ''/home/u/Makefile'', languageId := Some ''makefile'',
       cwd := Some ''/home/u'', waiting := [AfterSave ''make -f'' True],
       effects := [SaveDocument]\<rparr>"
    by (simp add: makefile_run initialSession_def)
  have s2: "isRunning ?s2 \<and> process ?s2 = None \<and> live ?s2 = []
      \<and> effects ?s2 = [SaveDocument, OutputShow True] \<and> uncaught ?s2 = [TypeError]"
    unfolding s1 by (simp add: makefile_resume initialSession_def)
  have s3: "effects (stop ?s2) = [SaveDocument, OutputShow True, SendEvent ''stop'']
      \<and> uncaught (stop ?s2) = [TypeError, TypeError]"
    using s2 by (simp add: stop_def emit_def throw_def Let_def)
  show ?thesis using s2 s3 by simp
qed

text \<open>
  The other way round, a process runs while the flag is clear: the process that a first
  \<open>stop\<close> killed reports its \<open>close\<close> after the next run has started. \<open>stop\<close> then does
  nothing, and the process of that run is not killed.
\<close>

lemma stop_misses_live_process:
  "live (handleAll [(exampleHost, Run None), (exampleHost, Resume 0), (exampleHost, Stop),
                    (exampleHost, Run None), (exampleHost, Resume 0),
                    (exampleHost, ProcessClose 0 ''null'' ''0.1''), (exampleHost, Stop)]
           (initialSession exampleConfig)) = [(1, True)]
   \<and> TreeKill 1 \<notin> set (effects (handleAll
          [(exampleHost, Run None), (exampleHost, Resume 0), (exampleHost, Stop),
           (exampleHost, Run None), (exampleHost, Resume 0),
           (exampleHost, ProcessClose 0 ''null'' ''0.1''), (exampleHost, Stop)]
          (initialSession exampleConfig)))"
proof -
  let ?s0 = "initialSession exampleConfig"
  let ?s1 = "run exampleHost None ?s0"
  let ?s2 = "resume exampleHost 0 ?s1"
  let ?s3 = "stop ?s2"
  let ?s4 = "run exampleHost None ?s3"
  let ?s5 = "resume exampleHost 0 ?s4"
  let ?s6 = "onProcessClose 0 ''null'' ''0.1'' ?s5"
  let ?s7 = "stop ?s6"
  have s1: "?s1 = ?s0\<lparr>sessionConfig := exampleConfig, isTmpFile := False,
       codeFile := Some ''/home/u/a.py'', languageId := Some ''python'', cwd := Some ''/home/u'',
       waiting := [AfterSave ''python -u'' True], effects := [SaveDocument]\<rparr>"
    by (simp add: example_run initialSession_def)
  have s2: "live ?s2 = [(0, True)] \<and> waiting ?s2 = [] \<and> isRunning ?s2 \<and> nextPid ?s2 = 1
      \<and> \<not> isTmpFile ?s2 \<and> process ?s2 = Some 0 \<and> TreeKill 1 \<notin> set (effects ?s2)"
    unfolding s1 by (simp add: example_resume initialSession_def)
  have s3: "live ?s3 = [(0, True)] \<and> waiting ?s3 = [] \<and> \<not> isRunning ?s3 \<and> nextPid ?s3 = 1
      \<and> TreeKill 1 \<notin> set (effects ?s3)"
    using s2 by (simp add: stop_def emit_def throw_def Let_def)
  have s4: "live ?s4 = [(0, True)] \<and> waiting ?s4 = [AfterSave ''python -u'' True]
      \<and> nextPid ?s4 = 1 \<and> codeFile ?s4 = Some ''/home/u/a.py''
      \<and> sessionConfig ?s4 = exampleConfig \<and> \<not> isTmpFile ?s4
      \<and> TreeKill 1 \<notin> set (effects ?s4)"
    using s3 by (simp add: example_run)
  have s5: "live ?s5 = [(0, True), (1, True)] \<and> isRunning ?s5 \<and> \<not> isTmpFile ?s5
      \<and> TreeKill 1 \<notin> set (effects ?s5)"
    using s4 by (simp add: example_resume)
  have s6: "\<not> isRunning ?s6 \<and> live ?s6 = [(1, True)] \<and> TreeKill 1 \<notin> set (effects ?s6)"
    using s5 by (simp add: onProcessClose_def emit_def Let_def)
  have "live ?s7 = [(1, True)] \<and> TreeKill 1 \<notin> set (effects ?s7)"
    using s6 by (simp add: stop_def emit_def Let_def)
  then show ?thesis by simp
qed

text \<open>
  What does hold. When the flag is set and a process is tracked, \<open>stop\<close> clears the flag
  at once and calls \<open>tree-kill\<close>, which kills a process and its descendants, on the
  tracked process; it does not wait for the \<open>close\<close> event. When the flag is clear,
  \<open>stop\<close> changes nothing and calls no collaborator but the telemetry client, to which
  every call of \<open>stop\<close> reports; this is the case of a second \<open>stop\<close> right after a
  first.
\<close>

lemma stop_kills_or_does_nothing:
  "(isRunning s \<and> process s = Some pid \<longrightarrow>
      stop s = s\<lparr>isRunning := False, effects := effects s @ [SendEvent ''stop'', TreeKill pid]\<rparr>)
   \<and> (\<not> isRunning s \<longrightarrow> stop s = s\<lparr>effects := effects s @ [SendEvent ''stop'']\<rparr>)
   \<and> \<not> isRunning (stop s)
   \<and> stop (stop s) = (stop s)\<lparr>effects := effects (stop s) @ [SendEvent ''stop'']\<rparr>"
  by (auto simp: stop_def emit_def throw_def Let_def split: option.splits)

text \<open>
  On the example session after one run has started its process, and on the initial
  session.
\<close>

lemma stop_on_example_session:
  "isRunning (handleAll [(exampleHost, Run None), (exampleHost, Resume 0)] (initialSession exampleConfig))
   \<and> effects (stop (handleAll [(exampleHost, Run None), (exampleHost, Resume 0)]
                       (initialSession exampleConfig)))
       = effects (handleAll [(exampleHost, Run None), (exampleHost, Resume 0)]
                    (initialSession exampleConfig)) @ [SendEvent ''stop'', TreeKill 0]
   \<and> \<not> isRunning (stop (handleAll [(exampleHost, Run None), (exampleHost, Resume 0)]
                            (initialSession exampleConfig)))
   \<and> stop (initialSession exampleConfig)
       = (initialSession exampleConfig)\<lparr>effects := [SendEvent ''stop'']\<rparr>"
proof -
  let ?init = "initialSession exampleConfig"
  let ?st = "handleAll [(exampleHost, Run None), (exampleHost, Resume 0)] ?init"
  have s1: "run exampleHost None ?init = ?init\<lparr>sessionConfig := exampleConfig, isTmpFile := False,
       codeFile := Some ''/home/u/a.py'', languageId := Some ''python'', cwd := Some ''/home/u'',
       waiting := [AfterSave ''python -u'' True], effects := [SaveDocument]\<rparr>"
    by (simp add: example_run initialSession_def)
  have s: "isRunning ?st \<and> process ?st = Some 0"
    by (simp add: s1) (simp add: example_resume initialSession_def)
  have idle: "\<not> isRunning ?init" "effects ?init = []" by (simp_all add: initialSession_def)
  show ?thesis
    using s idle stop_kills_or_does_nothing[of ?st 0] stop_kills_or_does_nothing[of ?init 0]
    by simp
qed

text \<open>
  A session marked running with no process tracked arises only from the throw above;
  there \<open>stop\<close> clears the flag and the read of \<open>pid\<close> throws.
\<close>

lemma stop_without_process:
  "isRunning s \<Longrightarrow> process s = None \<Longrightarrow>
   stop s = s\<lparr>isRunning := False, uncaught := uncaught s @ [TypeError],
              effects := effects s @ [SendEvent ''stop'']\<rparr>"
  by (simp add: stop_def emit_def throw_def Let_def)

section \<open>The code materializer\<close>

subsection \<open>Deleting the characters outside a class\<close>

lemma star_greedy:
  "k (dropWhile (atomMatches a) s) \<noteq> None \<Longrightarrow> star a s k = k (dropWhile (atomMatches a) s)"
  by (induction s) (auto split: option.splits)

lemma matchAt_Plus:
  "matchAt [Plus a] s =
     (case s of [] \<Rightarrow> None
      | c # cs \<Rightarrow> if atomMatches a c then Some (dropWhile (atomMatches a) cs, []) else None)"
  by (cases s) (simp_all add: matchAt_def star_greedy)

lemma filter_dropWhile_not: "filter (\<lambda>c. \<not> P c) (dropWhile P xs) = filter (\<lambda>c. \<not> P c) xs"
  by (induction xs) auto

lemma replaceAllFrom_Plus:
  "replaceAllFrom [Plus a] (Template []) pre s = filter (\<lambda>c. \<not> atomMatches a c) s"
proof (induction s arbitrary: pre rule: length_induct)
  case (1 s)
  show ?case
  proof (cases s)
    case Nil
    then show ?thesis by (simp add: replaceAllFrom.simps[of _ _ _ "[]"] matchAt_Plus)
  next
    case (Cons c cs)
    show ?thesis
    proof (cases "atomMatches a c")
      case True
      have "length (dropWhile (atomMatches a) cs) < length s"
        using Cons length_dropWhile_le[of "atomMatches a" cs] by simp
      then have "replaceAllFrom [Plus a] (Template []) pre' (dropWhile (atomMatches a) cs)
                 = filter (\<lambda>c. \<not> atomMatches a c) (dropWhile (atomMatches a) cs)" for pre'
        using 1 by blast
      then show ?thesis
        using True Cons length_dropWhile_le[of "atomMatches a" cs]
        by (subst replaceAllFrom.simps) (simp add: matchAt_Plus filter_dropWhile_not)
    next
      case False
      have "replaceAllFrom [Plus a] (Template []) pre' cs = filter (\<lambda>c. \<not> atomMatches a c) cs" for pre'
        using 1 Cons by simp
      then show ?thesis
        using False Cons by (subst replaceAllFrom.simps) (simp add: matchAt_Plus)
    qed
  qed
qed

lemma not_lower_class: "atomMatches (NoneOf [(CHR ''a'', CHR ''z'')]) c = (\<not> isLowerAlpha c)"
  by (simp add: inRange_def isLowerAlpha_def)

lemma rndName_filter: "rndName r = take 10 (filter isLowerAlpha r)"
  by (simp add: rndName_def replaceAll_def replaceAllFrom_Plus inRange_def isLowerAlpha_def[abs_def])

subsection \<open>Trimming\<close>

lemma trim_unchanged:
  assumes "s \<noteq> []" "\<not> isWhiteSpace (hd s)" "\<not> isWhiteSpace (last s)"
  shows "trim s = s"
proof -
  have a: "dropWhile isWhiteSpace s = s" using assms by (simp add: dropWhile_eq_self_iff)
  have "hd (rev s) = last s" using assms by (simp add: hd_rev)
  then have "dropWhile isWhiteSpace (rev s) = rev s" using assms by (simp add: dropWhile_eq_self_iff)
  then show ?thesis by (simp add: trim_def a)
qed

lemma trim_ends:
  assumes "trim s \<noteq> []"
  shows "\<not> isWhiteSpace (hd (trim s))" "\<not> isWhiteSpace (last (trim s))"
proof -
  let ?t = "dropWhile isWhiteSpace s"
  let ?u = "dropWhile isWhiteSpace (rev ?t)"
  have u: "?u \<noteq> []" using assms by (simp add: trim_def)
  then have t: "?t \<noteq> []" by (metis dropWhile.simps(1) rev.simps(1))
  have "\<not> isWhiteSpace (hd ?u)" using u hd_dropWhile by blast
  then show "\<not> isWhiteSpace (last (trim s))" using u by (simp add: trim_def last_rev)
  have "rev ?t = takeWhile isWhiteSpace (rev ?t) @ ?u" by simp
  then have "last (rev ?t) = last ?u" using u by (metis last_appendR)
  then have "last ?u = hd ?t" using t by (simp add: last_rev)
  moreover have "\<not> isWhiteSpace (hd ?t)" using t hd_dropWhile by blast
  ultimately show "\<not> isWhiteSpace (hd (trim s))" using u by (simp add: trim_def hd_rev)
qed

lemma trim_trim: "trim (trim s) = trim s"
proof (cases "trim s = []")
  case True
  have "trim [] = []" by (simp add: trim_def)
  then show ?thesis using True by simp
next
  case False
  then show ?thesis using trim_ends[OF False] by (simp add: trim_unchanged)
qed

lemma phpText_twice: "phpText (Some ''php'') (phpText (Some ''php'') C) = trim (phpText (Some ''php'') C)"
proof (cases "startsWith (trim C) ''<?php''")
  case True
  then show ?thesis by (simp add: phpText_def Let_def trim_trim)
next
  case False
  let ?n = "''<?php'' @ [CHR 0x0D, CHR 0x0A] @ trim C"
  have n: "phpText (Some ''php'') C = ?n" using False by (simp add: phpText_def Let_def)
  have "startsWith (trim ?n) ''<?php''"
  proof (cases "trim C = []")
    case True
    have "trim (''<?php'' @ [CHR 0x0D, CHR 0x0A]) = ''<?php''"
      by (simp add: trim_def isWhiteSpace_def)
    then show ?thesis using True by (simp add: startsWith_def)
  next
    case nonempty: False
    have "last ?n = last (trim C)" using nonempty by simp
    then have "trim ?n = ?n" using trim_ends(2)[OF nonempty]
      by (intro trim_unchanged) (simp_all add: isWhiteSpace_def)
    then show ?thesis by (simp add: startsWith_def)
  qed
  then show ?thesis unfolding n by (simp add: phpText_def Let_def)
qed

lemma phpText_idempotent_nonempty:
  assumes "trim C \<noteq> []"
  shows "phpText (Some ''php'') (phpText (Some ''php'') C) = phpText (Some ''php'') C"
proof -
  have ne: "phpText (Some ''php'') C \<noteq> []" using assms by (simp add: phpText_def Let_def)
  have h: "\<not> isWhiteSpace (hd (phpText (Some ''php'') C))"
    using assms trim_ends(1)[OF assms] by (simp add: phpText_def Let_def isWhiteSpace_def)
  have l: "\<not> isWhiteSpace (last (phpText (Some ''php'') C))"
    using assms trim_ends(2)[OF assms] by (simp add: phpText_def Let_def)
  show ?thesis using trim_unchanged[OF ne h l] by (simp add: phpText_twice)
qed

lemma executeCommand_keeps_file:
  "codeFile (executeCommand h executor appendFile s) = codeFile s
   \<and> files (executeCommand h executor appendFile s) = files s"
  by (simp add: executeCommand_def executeCommandInOutputChannel_def executeCommandInTerminal_def
      sendToTerminal_def emit_def throw_def Let_def split: sum.splits option.splits)

lemma createRandomFile_writes:
  "\<not> writeFails h (pathJoin h dir (tmpFileName (sessionConfig s) (languageId s) ext (random36 h)))
   \<Longrightarrow> \<exists>s'. createRandomFile h content (Some dir) ext s = (None, s')
        \<and> codeFile s' = Some (pathJoin h dir (tmpFileName (sessionConfig s) (languageId s) ext (random36 h)))
        \<and> files s' (pathJoin h dir (tmpFileName (sessionConfig s) (languageId s) ext (random36 h)))
            = Some content
        \<and> sessionConfig s' = sessionConfig s \<and> isTmpFile s' = isTmpFile s"
  by (simp add: createRandomFile_def emit_def Let_def)

text \<open>
  Claim C4, as amended. The random part of the name of a temporary file has at most ten
  characters, all of them in \<open>a-z\<close>: it is what is left of the first ten such
  characters of the text of the random number, and may be shorter, even empty. The
  extension is the one that \<open>languageIdToFileExtensionMap\<close> gives for the language id
  when both are non-empty strings; when the id is empty or the map gives no truthy
  value for it, it is the extension of the original file when that is not empty, else
  a dot and the language id. \<open>createRandomFile\<close> names the file
  \<open>temp\<close>, the random part and the extension, in the folder it is given.
\<close>

theorem temporary_file_name:
  "length (rndName r) \<le> 10
   \<and> (\<forall>c \<in> set (rndName r). isLowerAlpha c)
   \<and> rndName r = take 10 (filter isLowerAlpha r)
   \<and> (getProperty (languageIdToFileExtensionMap cfg) l = Str e \<and> l \<noteq> [] \<and> e \<noteq> []
        \<longrightarrow> fileType cfg (Some l) ext = e)
   \<and> (\<not> (l \<noteq> [] \<and> isTruthy (getProperty (languageIdToFileExtensionMap cfg) l)) \<and> ext \<noteq> []
        \<longrightarrow> fileType cfg (Some l) ext = ext)
   \<and> (\<not> (l \<noteq> [] \<and> isTruthy (getProperty (languageIdToFileExtensionMap cfg) l)) \<and> ext = []
        \<longrightarrow> fileType cfg (Some l) ext = ''.'' @ l)
   \<and> (\<forall>s'. createRandomFile h content (Some dir) ext s = (None, s') \<longrightarrow>
         codeFile s' = Some (pathJoin h dir
           (''temp'' @ rndName (random36 h) @ fileType (sessionConfig s) (languageId s) ext)))"
proof -
  have 1: "length (rndName r) \<le> 10" by (simp add: rndName_filter)
  have 2: "\<forall>c \<in> set (rndName r). isLowerAlpha c"
    using set_take_subset[of 10 "filter isLowerAlpha r"] by (auto simp: rndName_filter)
  have 3: "getProperty (languageIdToFileExtensionMap cfg) l = Str e \<and> l \<noteq> [] \<and> e \<noteq> []
        \<longrightarrow> fileType cfg (Some l) ext = e"
    by (simp add: fileType_def)
  have 4: "\<not> (l \<noteq> [] \<and> isTruthy (getProperty (languageIdToFileExtensionMap cfg) l)) \<and> ext \<noteq> []
        \<longrightarrow> fileType cfg (Some l) ext = ext"
    by (cases "getProperty (languageIdToFileExtensionMap cfg) l") (auto simp: fileType_def)
  have 5: "\<not> (l \<noteq> [] \<and> isTruthy (getProperty (languageIdToFileExtensionMap cfg) l)) \<and> ext = []
        \<longrightarrow> fileType cfg (Some l) ext = ''.'' @ l"
    by (cases "getProperty (languageIdToFileExtensionMap cfg) l") (auto simp: fileType_def)
  have 6: "\<forall>s'. createRandomFile h content (Some dir) ext s = (None, s') \<longrightarrow>
         codeFile s' = Some (pathJoin h dir
           (''temp'' @ rndName (random36 h) @ fileType (sessionConfig s) (languageId s) ext))"
    by (auto simp: createRandomFile_def tmpFileName_def emit_def Let_def split: if_splits)
  show ?thesis using 1 2 3 4 5 6 rndName_filter by blast
qed

text \<open>
  The theorem at a random text with eight letters, at the three ways to the extension,
  and at the file that \<open>createRandomFile\<close> creates on the example host.
\<close>

theorem temporary_file_name_witness:
  "rndName ''0.4fzyo82mvyr'' = ''fzyomvyr''
   \<and> fileType exampleConfig (Some ''bat'') ''.cmd'' = ''.bat''
   \<and> fileType exampleConfig (Some ''python'') ''.py'' = ''.py''
   \<and> fileType exampleConfig (Some ''python'') [] = ''.python''
   \<and> codeFile (snd (createRandomFile exampleHost ''print(1)'' (Some ''/home/u'') ''.py''
                      ((initialSession exampleConfig)\<lparr>languageId := Some ''python''\<rparr>)))
       = Some ''/home/u/tempi.py''"
proof -
  let ?st = "(initialSession exampleConfig)\<lparr>languageId := Some ''python''\<rparr>"
  note t1 = temporary_file_name[of "''0.4fzyo82mvyr''" exampleConfig "''bat''" "''.bat''" "''.cmd''"
      exampleHost "''print(1)''" "''/home/u''" ?st]
  note t2 = temporary_file_name[of "''0.i''" exampleConfig "''python''" "''.py''" "''.py''"
      exampleHost "''print(1)''" "''/home/u''" ?st]
  note t3 = temporary_file_name[of "''0.i''" exampleConfig "''python''" "''.py''" "[]"
      exampleHost "''print(1)''" "''/home/u''" ?st]
  have r: "rndName ''0.4fzyo82mvyr'' = ''fzyomvyr''" "rndName ''0.i'' = ''i''"
    using t1 t2 by (simp_all add: isLowerAlpha_def)
  have bat: "fileType exampleConfig (Some ''bat'') ''.cmd'' = ''.bat''"
    using t1 by (simp add: exampleConfig_def getProperty_def)
  have py: "fileType exampleConfig (Some ''python'') ''.py'' = ''.py''"
    using t2 by (simp add: exampleConfig_def getProperty_def objectPrototype_def)
  have nopy: "fileType exampleConfig (Some ''python'') [] = ''.python''"
    using t3 by (simp add: exampleConfig_def getProperty_def objectPrototype_def)
  obtain s' where c: "createRandomFile exampleHost ''print(1)'' (Some ''/home/u'') ''.py'' ?st = (None, s')"
    by (simp add: createRandomFile_def exampleHost_def Let_def)
  have "codeFile s' = Some (pathJoin exampleHost ''/home/u''
           (''temp'' @ rndName (random36 exampleHost) @ fileType (sessionConfig ?st) (languageId ?st) ''.py''))"
    using t2 c by blast
  then have "codeFile s' = Some ''/home/u/tempi.py''"
    using r(2) py by (simp add: exampleHost_def initialSession_def)
  then show ?thesis using r(1) bat py nopy c by simp
qed

text \<open>
  Claim C4 as stated fails when \<open>Math.random()\<close> returns \<open>0.5\<close>, whose text in base 36
  is \<open>0.i\<close>: the random part is the single letter \<open>i\<close>.
\<close>

theorem short_random_name_counterexample:
  "rndName ''0.i'' = ''i''
   \<and> tmpFileName exampleConfig (Some ''python'') ''.py'' ''0.i'' = ''tempi.py''"
  by (simp add: rndName_filter tmpFileName_def fileType_def exampleConfig_def isLowerAlpha_def
      getProperty_def objectPrototype_def)

text \<open>
  For a language id that names an inherited member of the map object the value of the
  map is that member, and its text ends the name of the file.
\<close>

lemma fileType_inherited_member:
  "fileType exampleConfig (Some ''constructor'') ''.py'' = ''function Object() { [native code] }''"
  by (simp add: fileType_def getProperty_def objectPrototype_def nativeFunction_def exampleConfig_def)

text \<open>
  Claim C6, as amended. Text of a language other than PHP is written as it is. PHP text
  is trimmed, and \<open><?php\<close> with a line break is put before it unless the trimmed text
  starts with \<open><?php\<close>. Normalizing a second time gives the trim of the normalized
  text: the prefix is never doubled, and the text is unchanged unless the trimmed input
  is empty. When \<open>getCodeFileAndExecute\<close> takes the branch of the temporary file and
  the write succeeds, the file it names holds exactly the normalized text.
\<close>

theorem temporary_file_content:
  "(lang \<noteq> Some ''php'' \<longrightarrow> phpText lang C = C)
   \<and> phpText (Some ''php'') C
       = (if startsWith (trim C) ''<?php'' then trim C
          else ''<?php'' @ [CHR 0x0D, CHR 0x0A] @ trim C)
   \<and> phpText (Some ''php'') (phpText (Some ''php'') C) = trim (phpText (Some ''php'') C)
   \<and> (trim C \<noteq> [] \<longrightarrow>
        phpText (Some ''php'') (phpText (Some ''php'') C) = phpText (Some ''php'') C)
   \<and> (((\<not> selectionIsEmpty ed \<and> \<not> ignoreSelection (sessionConfig s)) \<or> isUntitled ed)
        \<and> (if isUntitled ed then cwd s else Some (dirname h (fileName ed))) = Some dir
        \<and> \<not> writeFails h (pathJoin h dir
              (tmpFileName (sessionConfig s) (languageId s) ext (random36 h)))
      \<longrightarrow> codeFile (getCodeFileAndExecute h ed ext executor appendFile s)
            = Some (pathJoin h dir (tmpFileName (sessionConfig s) (languageId s) ext (random36 h)))
          \<and> files (getCodeFileAndExecute h ed ext executor appendFile s)
              (pathJoin h dir (tmpFileName (sessionConfig s) (languageId s) ext (random36 h)))
            = Some (phpText (languageId s)
                      (if selectionIsEmpty ed \<or> ignoreSelection (sessionConfig s)
                       then documentText ed else selectionText ed)))"
proof -
  let ?path = "pathJoin h dir (tmpFileName (sessionConfig s) (languageId s) ext (random36 h))"
  let ?content = "phpText (languageId s)
                      (if selectionIsEmpty ed \<or> ignoreSelection (sessionConfig s)
                       then documentText ed else selectionText ed)"
  have m: "codeFile (getCodeFileAndExecute h ed ext executor appendFile s) = Some ?path
          \<and> files (getCodeFileAndExecute h ed ext executor appendFile s) ?path = Some ?content"
    if a: "(\<not> selectionIsEmpty ed \<and> \<not> ignoreSelection (sessionConfig s)) \<or> isUntitled ed"
      and f: "(if isUntitled ed then cwd s else Some (dirname h (fileName ed))) = Some dir"
      and w: "\<not> writeFails h ?path"
  proof -
    let ?s1 = "s\<lparr>isTmpFile := True\<rparr>"
    have w1: "\<not> writeFails h (pathJoin h dir
                 (tmpFileName (sessionConfig ?s1) (languageId ?s1) ext (random36 h)))"
      using w by simp
    from createRandomFile_writes[OF w1, of ?content]
    obtain s2 where c: "createRandomFile h ?content (Some dir) ext ?s1 = (None, s2)"
      and cf: "codeFile s2 = Some ?path" and fs: "files s2 ?path = Some ?content"
      by auto
    have "getCodeFileAndExecute h ed ext executor appendFile s = executeCommand h executor appendFile s2"
      using a f c by (auto simp: getCodeFileAndExecute_def Let_def)
    then show ?thesis using cf fs executeCommand_keeps_file by simp
  qed
  have "lang \<noteq> Some ''php'' \<longrightarrow> phpText lang C = C" by (simp add: phpText_def)
  moreover have "phpText (Some ''php'') C
       = (if startsWith (trim C) ''<?php'' then trim C
          else ''<?php'' @ [CHR 0x0D, CHR 0x0A] @ trim C)"
    by (simp add: phpText_def Let_def)
  ultimately show ?thesis
    using phpText_twice phpText_idempotent_nonempty m by blast
qed

text \<open>
  Claim C6 as stated fails at the empty text (an empty untitled PHP document): the
  normalized text is the prefix with its line break, and normalizing again trims the
  line break away.
\<close>

theorem php_prefix_not_idempotent_counterexample:
  "phpText (Some ''php'') [] = ''<?php'' @ [CHR 0x0D, CHR 0x0A]
   \<and> phpText (Some ''php'') (phpText (Some ''php'') []) = ''<?php''"
  by (simp add: phpText_def trim_def startsWith_def isWhiteSpace_def)


text \<open>
  The theorem at Python text, at a PHP selection with spaces around it, and at the file
  written for that selection on the example host.
\<close>

theorem temporary_file_content_witness:
  "phpText (Some ''python'') ''print(1)'' = ''print(1)''
   \<and> phpText (Some ''php'') '' echo 1; '' = ''<?php'' @ [CHR 0x0D, CHR 0x0A] @ ''echo 1;''
   \<and> phpText (Some ''php'') (phpText (Some ''php'') '' echo 1; '') = phpText (Some ''php'') '' echo 1; ''
   \<and> files (getCodeFileAndExecute exampleHost
               (exampleEditor\<lparr>selectionIsEmpty := False, selectionText := '' echo 1; ''\<rparr>)
               ''.py'' ''php'' True
               ((initialSession exampleConfig)\<lparr>languageId := Some ''php''\<rparr>))
        ''/home/u/tempi.py''
       = Some (''<?php'' @ [CHR 0x0D, CHR 0x0A] @ ''echo 1;'')"
proof -
  let ?ed = "exampleEditor\<lparr>selectionIsEmpty := False, selectionText := '' echo 1; ''\<rparr>"
  let ?st = "(initialSession exampleConfig)\<lparr>languageId := Some ''php''\<rparr>"
  note t1 = temporary_file_content[of "Some ''python''" "''print(1)''" ?ed ?st exampleHost
      "''/home/u''" "''.py''" "''php''" True]
  note t2 = temporary_file_content[of "Some ''php''" "'' echo 1; ''" ?ed ?st exampleHost
      "''/home/u''" "''.py''" "''php''" True]
  have tr: "trim '' echo 1; '' = ''echo 1;''" by (simp add: trim_def isWhiteSpace_def)
  have p: "tmpFileName (sessionConfig ?st) (languageId ?st) ''.py'' (random36 exampleHost) = ''tempi.py''"
    by (simp add: tmpFileName_def rndName_filter fileType_def exampleHost_def exampleConfig_def
        initialSession_def isLowerAlpha_def getProperty_def objectPrototype_def)
  have 1: "phpText (Some ''python'') ''print(1)'' = ''print(1)''" using t1 by simp
  have 2: "phpText (Some ''php'') '' echo 1; '' = ''<?php'' @ [CHR 0x0D, CHR 0x0A] @ ''echo 1;''"
    using t2 tr by (simp add: startsWith_def)
  have "trim '' echo 1; '' \<noteq> [] \<longrightarrow>
          phpText (Some ''php'') (phpText (Some ''php'') '' echo 1; '') = phpText (Some ''php'') '' echo 1; ''"
    using t2 by blast
  then have 3: "phpText (Some ''php'') (phpText (Some ''php'') '' echo 1; '') = phpText (Some ''php'') '' echo 1; ''"
    by (simp add: tr)
  let ?path = "pathJoin exampleHost ''/home/u''
                 (tmpFileName (sessionConfig ?st) (languageId ?st) ''.py'' (random36 exampleHost))"
  have h1: "(\<not> selectionIsEmpty ?ed \<and> \<not> ignoreSelection (sessionConfig ?st)) \<or> isUntitled ?ed"
    by (simp add: initialSession_def exampleConfig_def)
  have h2: "(if isUntitled ?ed then cwd ?st else Some (dirname exampleHost (fileName ?ed)))
              = Some ''/home/u''"
    by (simp add: exampleHost_def exampleEditor_def)
  have h3: "\<not> writeFails exampleHost ?path" by (simp add: exampleHost_def)
  have "files (getCodeFileAndExecute exampleHost ?ed ''.py'' ''php'' True ?st) ?path
          = Some (phpText (languageId ?st)
                      (if selectionIsEmpty ?ed \<or> ignoreSelection (sessionConfig ?st)
                       then documentText ?ed else selectionText ?ed))"
    using t2 h1 h2 h3 by blast
  moreover have "?path = ''/home/u/tempi.py''" unfolding p by (simp add: exampleHost_def)
  ultimately have 4: "files (getCodeFileAndExecute exampleHost ?ed ''.py'' ''php'' True ?st) ''/home/u/tempi.py''
       = Some (phpText (Some ''php'') '' echo 1; '')"
    by (simp add: initialSession_def exampleConfig_def)
  show ?thesis using 1 2 3 4 by simp
qed

section \<open>The path adapter\<close>

lemma replaceEvery_backslash: "replaceEvery [CHR 0x5C] ''/'' s = map toSlash s"
  by (induction s) (auto simp: toSlash_def)

lemma replaceAll_rxBackslash: "replaceAll rxBackslash (Template ''/'') s = map toSlash s"
proof -
  have "rxBackslash = literal [CHR 0x5C]" by (simp add: rxBackslash_def literal_def)
  moreover have "replaceAll (literal [CHR 0x5C]) (Template ''/'') s = replaceEvery [CHR 0x5C] ''/'' s"
    by (rule replaceAll_literal_plain) simp_all
  ultimately show ?thesis by (simp add: replaceEvery_backslash)
qed

lemma letter_class:
  "atomMatches (OneOf [(CHR ''A'', CHR ''Z''), (CHR ''a'', CHR ''z'')]) d = isLetter d"
  by (simp add: inRange_def isLetter_def)

lemma matchAt_rxDrive:
  "matchAt rxDrive s =
     (case s of
        d # c # b # rest \<Rightarrow>
          if isLetter d \<and> c = CHR '':'' \<and> b = CHR 0x5C then Some (rest, [[d]]) else None
      | _ \<Rightarrow> None)"
proof (cases s)
  case Nil
  then show ?thesis by (simp add: matchAt_def rxDrive_def)
next
  case s1: (Cons d t)
  show ?thesis
  proof (cases t)
    case Nil
    then show ?thesis using s1 by (simp add: matchAt_def rxDrive_def)
  next
    case s2: (Cons c u)
    show ?thesis
    proof (cases u)
      case Nil
      then show ?thesis using s1 s2 by (simp add: matchAt_def rxDrive_def)
    next
      case (Cons b rest)
      then show ?thesis using s1 s2 by (auto simp: matchAt_def rxDrive_def inRange_def isLetter_def)
    qed
  qed
qed

lemma lowerChar_letter: "isLetter d \<Longrightarrow> lowerChar d \<noteq> CHR 0x5C"
proof -
  assume l: "isLetter d"
  show "lowerChar d \<noteq> CHR 0x5C"
  proof (cases "(65::nat) \<le> of_char d \<and> (of_char d::nat) \<le> 90")
    case True
    then have "lowerChar d = char_of ((of_char d :: nat) + 32)" by (simp add: lowerChar_def Let_def)
    moreover have "((of_char d :: nat) + 32) mod 256 \<noteq> 92" using True by simp
    ultimately show ?thesis by (simp add: char_of_eq_iff take_bit_eq_mod)
  next
    case False
    then have "(97::nat) \<le> of_char d \<and> (of_char d::nat) \<le> 122" using l by (auto simp: isLetter_def)
    then have "lowerChar d = d" "(of_char d :: nat) \<noteq> 92" by (simp_all add: lowerChar_def Let_def)
    then show ?thesis by auto
  qed
qed

lemma replaceAllFrom_rxDrive_short:
  "replaceAllFrom rxDrive v pre [] = []"
  "replaceAllFrom rxDrive v pre [a] = [a]"
  "replaceAllFrom rxDrive v pre [a, b] = [a, b]"
  by (simp_all add: replaceAllFrom.simps[of _ _ _ "[]"] replaceAllFrom.simps[of _ _ _ "[a]"]
      replaceAllFrom.simps[of _ _ _ "[b]"] replaceAllFrom.simps[of _ _ _ "[a, b]"] matchAt_rxDrive)

lemma drive_rewrite:
  assumes f: "\<And>m d. f m [[d]] = root @ [lowerChar d] @ ''/''"
  shows "map toSlash (replaceAllFrom rxDrive (Callback f) pre s) = posixPath (map toSlash root) s"
proof (induction "map toSlash root" s arbitrary: pre rule: posixPath.induct)
  case (1 d c b s)
  show ?case
  proof (cases "isLetter d \<and> c = CHR '':'' \<and> b = CHR 0x5C")
    case True
    have "map toSlash (replaceAllFrom rxDrive (Callback f) (pre @ [d, c, b]) s)
          = posixPath (map toSlash root) s"
      using 1(1) True by blast
    then show ?thesis
      using True
      by (subst replaceAllFrom.simps) (simp add: matchAt_rxDrive f lowerChar_letter toSlash_def)
  next
    case False
    have "map toSlash (replaceAllFrom rxDrive (Callback f) (pre @ [d]) (c # b # s))
          = posixPath (map toSlash root) (c # b # s)"
      using 1(2) False by blast
    then show ?thesis
      using False
      by (subst replaceAllFrom.simps) (auto simp: matchAt_rxDrive)
  qed
qed (simp_all add: replaceAllFrom_rxDrive_short)

lemma rootReplacer_drive: "rootReplacer root m [[d]] = root @ [lowerChar d] @ ''/''"
  by (simp add: rootReplacer_def toLowerCase_def)

lemma replacer_drive: "replacer m [[d]] = ''/mnt/'' @ [lowerChar d] @ ''/''"
  by (simp add: replacer_def toLowerCase_def)

lemma toSlash_mnt: "map toSlash ''/mnt/'' = ''/mnt/''"
  by (simp add: toSlash_def)

text \<open>
  Claim C9, as amended. Off Windows the command is returned as it is. On Windows, when
  a shell is configured and a terminal root is configured, every drive-letter prefix
  \<open>X:\\<close> becomes the terminal root, the letter in lower case and a slash, and every
  other backslash becomes a slash, those of the terminal root too. Otherwise, when the
  name of the configured shell contains \<open>bash\<close> and \<open>windows\<close> in any case, the same is
  done with the root \<open>/mnt/\<close>. At most one branch applies; when neither condition
  holds, and whenever no shell is configured, the command is returned as it is. The
  command that the output channel executes is the built command, not adapted.
\<close>

theorem posix_path_adapter:
  "(os \<noteq> ''win32'' \<longrightarrow>
      changeFilePathForBashOnWindows os shell root command = command)
   \<and> (truthy shell \<and> truthy root \<longrightarrow>
        changeFilePathForBashOnWindows ''win32'' shell root command
          = posixPath (map toSlash (toText root)) command)
   \<and> (truthy shell \<and> \<not> truthy root
        \<and> indexOf (toLowerCase (toText shell)) ''bash'' > - 1
        \<and> indexOf (toLowerCase (toText shell)) ''windows'' > - 1 \<longrightarrow>
        changeFilePathForBashOnWindows ''win32'' shell root command = posixPath ''/mnt/'' command)
   \<and> (\<not> (truthy shell \<and> truthy root)
        \<and> \<not> (truthy shell \<and> indexOf (toLowerCase (toText shell)) ''bash'' > - 1
                \<and> indexOf (toLowerCase (toText shell)) ''windows'' > - 1) \<longrightarrow>
        changeFilePathForBashOnWindows ''win32'' shell root command = command)
   \<and> (getFinalCommandToRunCodeFile (rootPath h) (codeFile s) executor appendFile = Inr built \<longrightarrow>
        last (effects (executeCommandInOutputChannel h executor appendFile s))
          = Exec (nextPid s) built (cwd s))"
proof -
  have a: "map toSlash (replaceAll rxDrive (Callback (rootReplacer (toText root))) command)
           = posixPath (map toSlash (toText root)) command"
    unfolding replaceAll_def by (rule drive_rewrite) (rule rootReplacer_drive)
  have b: "map toSlash (replaceAll rxDrive (Callback replacer) command) = posixPath ''/mnt/'' command"
    unfolding replaceAll_def using drive_rewrite[of replacer "''/mnt/''" "[]" command]
    by (simp add: replacer_drive toSlash_def)
  have c: "getFinalCommandToRunCodeFile (rootPath h) (codeFile s) executor appendFile = Inr built \<longrightarrow>
        last (effects (executeCommandInOutputChannel h executor appendFile s))
          = Exec (nextPid s) built (cwd s)"
    by (simp add: executeCommandInOutputChannel_def emit_def Let_def)
  show ?thesis
    using a b c by (simp add: changeFilePathForBashOnWindows_def replaceAll_rxBackslash)
qed

text \<open>
  The theorem off Windows, with a terminal root, with Bash on Windows, with neither, and
  on the command that the example session executes in the output channel.
\<close>

theorem posix_path_adapter_witness:
  "changeFilePathForBashOnWindows ''linux'' (Some ''bash on windows'') None
       (''python C:'' @ [CHR 0x5C] @ ''Users'' @ [CHR 0x5C] @ ''x.py'')
     = ''python C:'' @ [CHR 0x5C] @ ''Users'' @ [CHR 0x5C] @ ''x.py''
   \<and> changeFilePathForBashOnWindows ''win32'' (Some ''cmd.exe'') (Some ''/cygdrive/'')
       (''python C:'' @ [CHR 0x5C] @ ''Users'' @ [CHR 0x5C] @ ''x.py'')
     = ''python /cygdrive/c/Users/x.py''
   \<and> changeFilePathForBashOnWindows ''win32''
       (Some (''C:'' @ [CHR 0x5C] @ ''Windows'' @ [CHR 0x5C] @ ''System32'' @ [CHR 0x5C] @ ''bash.exe'')) None
       (''python C:'' @ [CHR 0x5C] @ ''Users'' @ [CHR 0x5C] @ ''x.py'')
     = ''python /mnt/c/Users/x.py''
   \<and> changeFilePathForBashOnWindows ''win32'' (Some ''cmd.exe'') None
       (''python C:'' @ [CHR 0x5C] @ ''Users'' @ [CHR 0x5C] @ ''x.py'')
     = ''python C:'' @ [CHR 0x5C] @ ''Users'' @ [CHR 0x5C] @ ''x.py''
   \<and> last (effects (executeCommandInOutputChannel exampleHost ''python -u'' True
                      ((initialSession exampleConfig)\<lparr>codeFile := Some ''/home/u/a.py''\<rparr>)))
     = Exec 0 (''python -u '' @ quoteFileName ''/home/u/a.py'') None"
proof -
  let ?cmd = "''python C:'' @ [CHR 0x5C] @ ''Users'' @ [CHR 0x5C] @ ''x.py''"
  let ?bash = "Some (''C:'' @ [CHR 0x5C] @ ''Windows'' @ [CHR 0x5C] @ ''System32'' @ [CHR 0x5C] @ ''bash.exe'')"
  let ?st = "(initialSession exampleConfig)\<lparr>codeFile := Some ''/home/u/a.py''\<rparr>"
  note t1 = posix_path_adapter[of "''linux''" "Some ''bash on windows''" None ?cmd exampleHost ?st
      "''python -u''" True "''python -u '' @ quoteFileName ''/home/u/a.py''"]
  note t2 = posix_path_adapter[of "''win32''" "Some ''cmd.exe''" "Some ''/cygdrive/''" ?cmd exampleHost ?st
      "''python -u''" True "''python -u '' @ quoteFileName ''/home/u/a.py''"]
  note t3 = posix_path_adapter[of "''win32''" ?bash None ?cmd exampleHost ?st
      "''python -u''" True "''python -u '' @ quoteFileName ''/home/u/a.py''"]
  note t4 = posix_path_adapter[of "''win32''" "Some ''cmd.exe''" None ?cmd exampleHost ?st
      "''python -u''" True "''python -u '' @ quoteFileName ''/home/u/a.py''"]
  have 1: "changeFilePathForBashOnWindows ''linux'' (Some ''bash on windows'') None ?cmd = ?cmd"
    using t1 by simp
  have 2: "changeFilePathForBashOnWindows ''win32'' (Some ''cmd.exe'') (Some ''/cygdrive/'') ?cmd
             = ''python /cygdrive/c/Users/x.py''"
    using t2 by (simp add: toSlash_def isLetter_def lowerChar_def char_of_def bit_Suc_0_iff)
  have low: "toLowerCase (toText ?bash) = ''c:'' @ [CHR 0x5C] @ ''windows'' @ [CHR 0x5C] @ ''system32'' @ [CHR 0x5C] @ ''bash.exe''"
    by (simp add: toLowerCase_def lowerChar_def char_of_def bit_Suc_0_iff)
  have 3: "changeFilePathForBashOnWindows ''win32'' ?bash None ?cmd = ''python /mnt/c/Users/x.py''"
    using t3 unfolding low
    by (simp add: indexOf_def toSlash_def isLetter_def lowerChar_def char_of_def bit_Suc_0_iff)
  have 4: "changeFilePathForBashOnWindows ''win32'' (Some ''cmd.exe'') None ?cmd = ?cmd"
    using t4 by (simp add: indexOf_def toLowerCase_def lowerChar_def char_of_def bit_Suc_0_iff)
  have "getFinalCommandToRunCodeFile (rootPath exampleHost) (codeFile ?st) ''python -u'' True
          = Inr (''python -u '' @ quoteFileName ''/home/u/a.py'')"
    using example_command by (simp add: exampleHost_def)
  then have 5: "last (effects (executeCommandInOutputChannel exampleHost ''python -u'' True ?st))
     = Exec (nextPid ?st) (''python -u '' @ quoteFileName ''/home/u/a.py'') (cwd ?st)"
    using t1 by blast
  show ?thesis using 1 2 3 4 5 by (simp add: initialSession_def)
qed

text \<open>
  Claim C9 as stated fails when a terminal root is configured and no shell is: the
  first branch also asks for the shell setting, and the command keeps its drive letter.
\<close>

theorem terminal_root_without_shell_counterexample:
  "truthy (Some ''/cygdrive/'')
   \<and> changeFilePathForBashOnWindows ''win32'' None (Some ''/cygdrive/'') (''C:'' @ [CHR 0x5C] @ ''a'')
     = ''C:'' @ [CHR 0x5C] @ ''a''"
  by (simp add: changeFilePathForBashOnWindows_def)

section \<open>The PowerShell adapter\<close>

lemma plain_chain1: "getSubstitution m pre post [] ''; if ($?) {'' = ''; if ($?) {''"
  by (simp add: isDigit_def)

lemma plain_chain2: "getSubstitution m pre post [] ''} ; if ($?) {'' = ''} ; if ($?) {''"
  by (simp add: isDigit_def)

lemma plain_relative:
  "getSubstitution m pre post [] (''.'' @ [CHR 0x5C] @ ''$fileNameWithoutExt'')
     = ''.'' @ [CHR 0x5C] @ ''$fileNameWithoutExt''"
  by (simp add: isDigit_def)

lemma replaceEvery_amp:
  "replaceEvery ''&&'' v (a # b # s) =
     (if a = CHR ''&'' \<and> b = CHR ''&'' then v @ replaceEvery ''&&'' v s
      else a # replaceEvery ''&&'' v (b # s))"
  by (cases "a = CHR ''&''"; cases "b = CHR ''&''") auto

lemma replaceOnce_amp:
  "replaceOnce ''&&'' v (a # b # s) =
     (if a = CHR ''&'' \<and> b = CHR ''&'' then v @ s else a # replaceOnce ''&&'' v (b # s))"
  by (cases "a = CHR ''&''"; cases "b = CHR ''&''") auto

lemma replaceEvery_amp1: "replaceEvery ''&&'' v [a] = [a]"
  by simp

lemma replaceOnce_amp1: "replaceOnce ''&&'' v [a] = [a]"
  by simp

lemma replaceEvery_chain1:
  "replaceEvery ''&&'' v (''; if ($?) {'' @ s) = ''; if ($?) {'' @ replaceEvery ''&&'' v s"
  by simp

lemma ampChain_False: "ampChain False s = replaceEvery ''&&'' ''} ; if ($?) {'' s"
proof (induction "False" s rule: ampChain.induct)
  case (1 a b s)
  then show ?case
    by (simp only: replaceEvery_amp ampChain.simps split: if_splits) simp
qed simp_all

lemma ampChain_True:
  "ampChain True s = replaceEvery ''&&'' ''} ; if ($?) {'' (replaceOnce ''&&'' ''; if ($?) {'' s)"
proof (induction "True" s rule: ampChain.induct)
  case (1 a b s)
  show ?case
  proof (cases "a = CHR ''&'' \<and> b = CHR ''&''")
    case True
    then show ?thesis
      by (simp add: ampChain_False)
  next
    case False
    have ih: "ampChain True (b # s)
              = replaceEvery ''&&'' ''} ; if ($?) {'' (replaceOnce ''&&'' ''; if ($?) {'' (b # s))"
      using 1(2) False by blast
    have "\<exists>c t. replaceOnce ''&&'' ''; if ($?) {'' (b # s) = c # t \<and> (b \<noteq> CHR ''&'' \<longrightarrow> c = b)"
    proof (cases s)
      case Nil
      then show ?thesis by (simp only: replaceOnce_amp1) blast
    next
      case (Cons d u)
      show ?thesis
      proof (cases "b = CHR ''&'' \<and> d = CHR ''&''")
        case True
        then have "replaceOnce ''&&'' ''; if ($?) {'' (b # s) = ''; if ($?) {'' @ u"
          unfolding Cons by (simp add: replaceOnce_amp del: replaceOnce.simps)
        then show ?thesis using True by simp
      next
        case False
        then have "replaceOnce ''&&'' ''; if ($?) {'' (b # s)
                     = b # replaceOnce ''&&'' ''; if ($?) {'' (d # u)"
          unfolding Cons using False by (simp add: replaceOnce_amp del: replaceOnce.simps)
        then show ?thesis by blast
      qed
    qed
    then obtain c t where r: "replaceOnce ''&&'' ''; if ($?) {'' (b # s) = c # t"
      and c: "b \<noteq> CHR ''&'' \<longrightarrow> c = b"
      by blast
    have np: "\<not> (a = CHR ''&'' \<and> c = CHR ''&'')"
    proof
      assume x: "a = CHR ''&'' \<and> c = CHR ''&''"
      then have "b \<noteq> CHR ''&''" using False by simp
      then show False using c x by simp
    qed
    have e: "replaceEvery ''&&'' ''} ; if ($?) {'' (a # c # t) = a # replaceEvery ''&&'' ''} ; if ($?) {'' (c # t)"
      by (simp only: replaceEvery_amp if_not_P[OF np])
    have l: "ampChain True (a # b # s) = a # ampChain True (b # s)"
      by (simp only: ampChain.simps if_not_P[OF False])
    have o: "replaceOnce ''&&'' ''; if ($?) {'' (a # b # s) = a # replaceOnce ''&&'' ''; if ($?) {'' (b # s)"
      by (simp only: replaceOnce_amp if_not_P[OF False])
    show ?thesis unfolding l o ih r e ..
  qed
qed simp_all

text \<open>
  Claim C5, as amended. On Windows, when the name of the configured shell contains
  \<open>powershell\<close> in any case and the command contains \<open>&&\<close> between two spaces, the first
  \<open>&&\<close> of the command becomes \<open>; if ($?) {\<close>, every later \<open>&&\<close> becomes
  \<open>} ; if ($?) {\<close>, then every \<open>$dir$fileNameWithoutExt\<close> becomes
  \<open>.\$fileNameWithoutExt\<close>, and a space and \<open>}\<close> are appended. Every other command
  is returned as it is.
\<close>

theorem powershell_chain:
  "(os = ''win32'' \<and> truthy shell
      \<and> indexOf (toLowerCase (toText shell)) ''powershell'' > - 1
      \<and> indexOf executor '' && '' > - 1 \<longrightarrow>
      changeExecutorFromCmdToPs os shell executor
        = replaceEvery ''$dir$fileNameWithoutExt'' (''.'' @ [CHR 0x5C] @ ''$fileNameWithoutExt'')
            (ampChain True executor) @ '' }'')
   \<and> (\<not> (os = ''win32'' \<and> truthy shell
          \<and> indexOf (toLowerCase (toText shell)) ''powershell'' > - 1
          \<and> indexOf executor '' && '' > - 1) \<longrightarrow>
      changeExecutorFromCmdToPs os shell executor = executor)"
proof -
  define relative where "relative = ''.'' @ [CHR 0x5C] @ ''$fileNameWithoutExt''"
  have 1: "replaceFirst (literal ''&&'') (Template ''; if ($?) {'') s
           = replaceOnce ''&&'' ''; if ($?) {'' s" for s
    by (rule replaceFirst_literal) (simp_all add: isDigit_def)
  have 2: "replaceAll (literal ''&&'') (Template ''} ; if ($?) {'') s
           = replaceEvery ''&&'' ''} ; if ($?) {'' s" for s
    by (rule replaceAll_literal_plain) (simp_all add: isDigit_def)
  have 3: "replaceAll (literal ''$dir$fileNameWithoutExt'') (Template relative) s
           = replaceEvery ''$dir$fileNameWithoutExt'' relative s" for s
    by (rule replaceAll_literal_plain) (simp_all add: relative_def isDigit_def)
  have "changeExecutorFromCmdToPs os shell executor =
     (if os = ''win32'' \<and> truthy shell
         \<and> indexOf (toLowerCase (toText shell)) ''powershell'' > - 1
         \<and> indexOf executor '' && '' > - 1
      then replaceAll (literal ''$dir$fileNameWithoutExt'') (Template relative)
             (replaceAll (literal ''&&'') (Template ''} ; if ($?) {'')
                (replaceFirst (literal ''&&'') (Template ''; if ($?) {'') executor)) @ '' }''
      else executor)"
    unfolding changeExecutorFromCmdToPs_def Let_def relative_def by simp
  then have eq: "changeExecutorFromCmdToPs os shell executor =
     (if os = ''win32'' \<and> truthy shell
         \<and> indexOf (toLowerCase (toText shell)) ''powershell'' > - 1
         \<and> indexOf executor '' && '' > - 1
      then replaceEvery ''$dir$fileNameWithoutExt'' relative (ampChain True executor) @ '' }''
      else executor)"
    by (simp only: 1 2 3 ampChain_True)
  show ?thesis
  proof (intro conjI impI)
    assume c: "os = ''win32'' \<and> truthy shell
         \<and> indexOf (toLowerCase (toText shell)) ''powershell'' > - 1
         \<and> indexOf executor '' && '' > - 1"
    show "changeExecutorFromCmdToPs os shell executor
        = replaceEvery ''$dir$fileNameWithoutExt'' (''.'' @ [CHR 0x5C] @ ''$fileNameWithoutExt'')
            (ampChain True executor) @ '' }''"
      using eq unfolding relative_def by (simp only: if_P[OF c])
  next
    assume nc: "\<not> (os = ''win32'' \<and> truthy shell
          \<and> indexOf (toLowerCase (toText shell)) ''powershell'' > - 1
          \<and> indexOf executor '' && '' > - 1)"
    show "changeExecutorFromCmdToPs os shell executor = executor"
      using eq by (simp only: if_not_P[OF nc])
  qed
qed

text \<open>
  The theorem on the scenario of the specification, on a chain of three commands, and
  with a shell that is not PowerShell.
\<close>

theorem powershell_chain_witness:
  "changeExecutorFromCmdToPs ''win32'' (Some ''PowerShell.exe'')
       ''gcc $dir$fileNameWithoutExt.c -o $dir$fileNameWithoutExt && $dir$fileNameWithoutExt''
     = ''gcc .'' @ [CHR 0x5C] @ ''$fileNameWithoutExt.c -o .'' @ [CHR 0x5C]
         @ ''$fileNameWithoutExt ; if ($?) { .'' @ [CHR 0x5C] @ ''$fileNameWithoutExt }''
   \<and> changeExecutorFromCmdToPs ''win32'' (Some ''PowerShell.exe'') ''a && b && c''
     = ''a ; if ($?) { b } ; if ($?) { c }''
   \<and> changeExecutorFromCmdToPs ''win32'' (Some ''cmd.exe'') ''a && b && c'' = ''a && b && c''"
proof -
  have low: "toLowerCase (toText (Some ''PowerShell.exe'')) = ''powershell.exe''"
    "toLowerCase (toText (Some ''cmd.exe'')) = ''cmd.exe''"
    by (simp_all add: toLowerCase_def lowerChar_def char_of_def bit_Suc_0_iff)
  note t1 = powershell_chain[of "''win32''" "Some ''PowerShell.exe''"
      "''gcc $dir$fileNameWithoutExt.c -o $dir$fileNameWithoutExt && $dir$fileNameWithoutExt''"]
  note t2 = powershell_chain[of "''win32''" "Some ''PowerShell.exe''" "''a && b && c''"]
  note t3 = powershell_chain[of "''win32''" "Some ''cmd.exe''" "''a && b && c''"]
  have 1: "changeExecutorFromCmdToPs ''win32'' (Some ''PowerShell.exe'')
       ''gcc $dir$fileNameWithoutExt.c -o $dir$fileNameWithoutExt && $dir$fileNameWithoutExt''
     = ''gcc .'' @ [CHR 0x5C] @ ''$fileNameWithoutExt.c -o .'' @ [CHR 0x5C]
         @ ''$fileNameWithoutExt ; if ($?) { .'' @ [CHR 0x5C] @ ''$fileNameWithoutExt }''"
    using t1 unfolding low by (simp add: indexOf_def)
  have 2: "changeExecutorFromCmdToPs ''win32'' (Some ''PowerShell.exe'') ''a && b && c''
     = ''a ; if ($?) { b } ; if ($?) { c }''"
    using t2 unfolding low by (simp add: indexOf_def)
  have 3: "changeExecutorFromCmdToPs ''win32'' (Some ''cmd.exe'') ''a && b && c'' = ''a && b && c''"
    using t3 unfolding low by (simp add: indexOf_def)
  show ?thesis using 1 2 3 by simp
qed

text \<open>
  Claim C5 as stated fails for a chain written without spaces: \<open>a&&b\<close> contains \<open>&&\<close>,
  and PowerShell gets it unchanged.
\<close>

theorem unspaced_chain_counterexample:
  "indexOf ''a&&b'' ''&&'' > - 1
   \<and> changeExecutorFromCmdToPs ''win32'' (Some ''powershell.exe'') ''a&&b'' = ''a&&b''"
  by (simp add: changeExecutorFromCmdToPs_def indexOf_def)

section \<open>The command builder\<close>

lemma indexOfFrom_none:
  "indexOfFrom s p i = - 1 \<longleftrightarrow> (\<forall>n \<le> length s. \<not> prefix p (drop n s))"
proof (induction s arbitrary: i)
  case Nil
  then show ?case by auto
next
  case (Cons c cs)
  have "(\<forall>n \<le> length (c # cs). \<not> prefix p (drop n (c # cs)))
        \<longleftrightarrow> \<not> prefix p (c # cs) \<and> (\<forall>n \<le> length cs. \<not> prefix p (drop n cs))"
    (is "?L \<longleftrightarrow> ?R")
  proof
    assume l: ?L
    have "\<not> prefix p (drop 0 (c # cs))" using l by blast
    moreover have "\<not> prefix p (drop n cs)" if "n \<le> length cs" for n
    proof -
      have "Suc n \<le> length (c # cs)" using that by simp
      then have "\<not> prefix p (drop (Suc n) (c # cs))" using l by blast
      then show ?thesis by simp
    qed
    ultimately show ?R by simp
  next
    assume r: ?R
    show ?L
    proof (intro allI impI)
      fix n assume "n \<le> length (c # cs)"
      then show "\<not> prefix p (drop n (c # cs))" using r by (cases n) auto
    qed
  qed
  then show ?case using Cons[of "Suc i"] by auto
qed

lemma indexOf_none_Cons:
  "indexOf (c # cs) p = - 1 \<longleftrightarrow> \<not> prefix p (c # cs) \<and> indexOf cs p = - 1"
  unfolding indexOf_def
  using indexOfFrom_none[of cs p 0] indexOfFrom_none[of cs p 1] by auto

lemma indexOf_found: "indexOf s p > - 1 \<longleftrightarrow> indexOf s p \<noteq> - 1"
proof -
  have "indexOfFrom s p i = - 1 \<or> indexOfFrom s p i \<ge> 0" for i
    by (induction s arbitrary: i) auto
  from this[of 0] show ?thesis unfolding indexOf_def by auto
qed

lemma substEvery_unchanged: "indexOf s p = - 1 \<Longrightarrow> substEvery p v pre s = s"
proof (induction p v pre s rule: substEvery.induct)
  case (1 p v pre)
  then show ?case by simp
next
  case (2 p v pre c cs)
  then show ?case by (simp add: indexOf_none_Cons)
qed

text \<open>Replacing a placeholder by a text without dollar takes dollars away.\<close>

lemma dollars_append [simp]: "dollars (a @ b) = dollars a + dollars b"
  by (simp add: dollars_def)

lemma dollars_Cons: "dollars (c # s) = (if c = CHR ''$'' then 1 else 0) + dollars s"
  by (simp add: dollars_def)

lemma dollars_none: "CHR ''$'' \<notin> set v \<Longrightarrow> dollars v = 0"
  by (induction v) (auto simp: dollars_def)

lemma dollars_drop_prefix:
  "prefix p s \<Longrightarrow> dollars (drop (length p) s) + dollars p = dollars s"
  by (auto simp: prefix_def)

lemma dollars_replaceEvery:
  "CHR ''$'' \<notin> set v \<Longrightarrow>
     dollars (replaceEvery p v s) \<le> dollars s
     \<and> (dollars p > 0 \<longrightarrow> indexOf s p \<noteq> - 1 \<longrightarrow> dollars (replaceEvery p v s) < dollars s)"
proof (induction p v s rule: replaceEvery.induct)
  case (1 p v)
  then show ?case by (simp add: indexOf_def dollars_def)
next
  case (2 p v c cs)
  show ?case
  proof (cases "p \<noteq> [] \<and> prefix p (c # cs)")
    case True
    have ih: "dollars (replaceEvery p v (drop (length p) (c # cs))) \<le> dollars (drop (length p) (c # cs))"
      using 2(1) True 2(3) by blast
    have d: "dollars (drop (length p) (c # cs)) + dollars p = dollars (c # cs)"
      using True dollars_drop_prefix by blast
    have r: "replaceEvery p v (c # cs) = v @ replaceEvery p v (drop (length p) (c # cs))"
      using True by (subst replaceEvery.simps) simp
    show ?thesis unfolding r using ih d dollars_none[OF 2(3)] by auto
  next
    case False
    have ih: "dollars (replaceEvery p v cs) \<le> dollars cs
         \<and> (dollars p > 0 \<longrightarrow> indexOf cs p \<noteq> - 1 \<longrightarrow> dollars (replaceEvery p v cs) < dollars cs)"
      using 2(2) False 2(3) by blast
    have r: "replaceEvery p v (c # cs) = c # replaceEvery p v cs"
      using False by (subst replaceEvery.simps) auto
    have np: "p \<noteq> [] \<Longrightarrow> indexOf (c # cs) p \<noteq> - 1 \<Longrightarrow> indexOf cs p \<noteq> - 1"
      using False indexOf_none_Cons by blast
    have p0: "dollars p > 0 \<Longrightarrow> p \<noteq> []" by (auto simp: dollars_def)
    have "dollars p > 0 \<Longrightarrow> indexOf (c # cs) p \<noteq> - 1 \<Longrightarrow> indexOf cs p \<noteq> - 1"
      using np p0 by blast
    then show ?thesis unfolding r using ih by (auto simp: dollars_Cons)
  qed
qed

lemma set_replaceFirst_empty: "set (replaceFirst r (Template []) d) \<subseteq> set d"
proof (cases "search r 0 d")
  case None
  then show ?thesis by (simp add: replaceFirst_def)
next
  case (Some x)
  obtain i whole caps where x: "x = (i, whole, caps)" by (cases x) auto
  have "set (take i d) \<subseteq> set d" "set (drop (i + length whole) d) \<subseteq> set d"
    by (simp_all add: set_take_subset set_drop_subset)
  then show ?thesis using Some x by (auto simp: replaceFirst_def)
qed

lemma set_take_drop: "set (take a (drop b f)) \<subseteq> set f"
  by (meson set_take_subset set_drop_subset subset_trans)

lemma placeholders_shape:
  assumes "sepThenDot f"
  shows "\<exists>d stem base.
           getCodeFileDir f = Inr d \<and> getCodeFileWithoutDirAndExt f = Inr stem
           \<and> getCodeBaseFile f = Inr base
           \<and> set d \<subseteq> set f \<and> set stem \<subseteq> set f \<and> set base \<subseteq> set f
           \<and> placeholders root f =
                Inr [(''$workspaceRoot'', getWorkspaceRoot root d),
                     (''$fileNameWithoutExt'', stem),
                     (''$fullFileName'', quoteFileName f),
                     (''$fileName'', base),
                     (''$dirWithoutTrailingSlash'',
                        quoteFileName (replaceFirst rxTrailingSlash (Template []) d)),
                     (''$dir'', quoteFileName d)]"
proof -
  have sep: "\<not> (\<forall>c \<in> set f. \<not> isSeparator c)" using assms sepThenDot_separator by blast
  have "getCodeFileDir f \<noteq> Inl TypeError" using getCodeFileDir_throws_iff sep by blast
  then obtain a1 b1 where d0: "getCodeFileDir f = Inr (take a1 (drop b1 f))"
    using getCodeFileDir_cases[of f] by blast
  define d where "d = take a1 (drop b1 f)"
  have d: "getCodeFileDir f = Inr d" "set d \<subseteq> set f"
    using d0 set_take_drop by (simp_all add: d_def)
  have "getCodeBaseFile f \<noteq> Inl TypeError" using getCodeBaseFile_throws_iff sep by blast
  then obtain a2 b2 where b0: "getCodeBaseFile f = Inr (take a2 (drop b2 f))"
    using getCodeBaseFile_cases[of f] by blast
  define base where "base = take a2 (drop b2 f)"
  have b: "getCodeBaseFile f = Inr base" "set base \<subseteq> set f"
    using b0 set_take_drop by (simp_all add: base_def)
  have "getCodeFileWithoutDirAndExt f \<noteq> Inl TypeError"
    using getCodeFileWithoutDirAndExt_throws_iff assms by blast
  then obtain a3 b3 where s0: "getCodeFileWithoutDirAndExt f = Inr (take a3 (drop b3 f))"
    using getCodeFileWithoutDirAndExt_cases[of f] by blast
  define stem where "stem = take a3 (drop b3 f)"
  have s: "getCodeFileWithoutDirAndExt f = Inr stem" "set stem \<subseteq> set f"
    using s0 set_take_drop by (simp_all add: stem_def)
  show ?thesis
    using d b s by (simp add: placeholders_def getCodeFileDirWithoutTrailingSlash_def)
qed

lemma placeholders_succeed_iff: "(\<exists>phs. placeholders root f = Inr phs) \<longleftrightarrow> sepThenDot f"
proof
  assume "\<exists>phs. placeholders root f = Inr phs"
  then have "getCodeFileWithoutDirAndExt f \<noteq> Inl TypeError"
    by (auto simp: placeholders_def split: sum.splits)
  then show "sepThenDot f" using getCodeFileWithoutDirAndExt_throws_iff by blast
next
  assume "sepThenDot f"
  then show "\<exists>phs. placeholders root f = Inr phs" using placeholders_shape by blast
qed

lemma applyPlaceholders_six:
  "applyPlaceholders [(p1, v1), (p2, v2), (p3, v3), (p4, v4), (p5, v5), (p6, v6)] t =
     replaceAll (literal p6) (Template v6)
       (replaceAll (literal p5) (Template v5)
         (replaceAll (literal p4) (Template v4)
           (replaceAll (literal p3) (Template v3)
             (replaceAll (literal p2) (Template v2)
               (replaceAll (literal p1) (Template v1) t)))))"
  by (simp add: applyPlaceholders_def)

lemma applyPlaceholders_substEvery:
  "\<forall>pv \<in> set phs. fst pv \<noteq> [] \<Longrightarrow>
     applyPlaceholders phs t = foldl (\<lambda>cmd (p, v). substEvery p v [] cmd) t phs"
  unfolding applyPlaceholders_def
  by (induction phs arbitrary: t) (auto simp: replaceAll_literal)

lemma applyPlaceholders_replaceEvery:
  "\<forall>pv \<in> set phs. fst pv \<noteq> [] \<and> CHR ''$'' \<notin> set (snd pv) \<Longrightarrow>
     applyPlaceholders phs t = foldl (\<lambda>cmd (p, v). replaceEvery p v cmd) t phs"
  unfolding applyPlaceholders_def
  by (induction phs arbitrary: t)
     (auto simp: replaceAll_literal_plain getSubstitution_noDollar)

lemma getFinalCommand_built:
  assumes "placeholders root f = Inr phs"
  shows "getFinalCommandToRunCodeFile root (Some f) t b =
           Inr (if applyPlaceholders phs t \<noteq> t then applyPlaceholders phs t
                else t @ (if b then '' '' @ quoteFileName f else []))"
proof -
  have "sepThenDot f" using assms placeholders_succeed_iff by blast
  then have "f \<noteq> []" by auto
  then show ?thesis using assms by (simp add: getFinalCommandToRunCodeFile_def)
qed

lemma dollars_quoteFileName: "dollars (quoteFileName d) = dollars d"
  by (simp add: quoteFileName_def dollars_def)

lemma no_dollar_subset: "set a \<subseteq> set f \<Longrightarrow> CHR ''$'' \<notin> set f \<Longrightarrow> CHR ''$'' \<notin> set a"
  by blast

lemma no_dollar_quote: "CHR ''$'' \<notin> set d \<Longrightarrow> CHR ''$'' \<notin> set (quoteFileName d)"
  by (simp add: quoteFileName_def)

text \<open>
  Claim C1, as amended. When the path helpers succeed on the code file, the builder
  applies the six placeholders in the order of the source: \<open>$workspaceRoot\<close>,
  \<open>$fileNameWithoutExt\<close>, \<open>$fullFileName\<close>, \<open>$fileName\<close>, \<open>$dirWithoutTrailingSlash\<close>,
  \<open>$dir\<close>. Each replacement is global: it replaces every occurrence of its placeholder
  in the text that the replacements before it have produced, the value being expanded
  as a replacement text, and inserted as it is when it has no dollar. The final
  command is the text so obtained when it differs from the template, and the template
  with or without the appended file otherwise.
\<close>

theorem placeholders_replaced_in_order:
  "placeholders root f = Inr phs \<longrightarrow>
     map fst phs = [''$workspaceRoot'', ''$fileNameWithoutExt'', ''$fullFileName'', ''$fileName'',
                    ''$dirWithoutTrailingSlash'', ''$dir'']
     \<and> applyPlaceholders phs t = foldl (\<lambda>cmd (p, v). substEvery p v [] cmd) t phs
     \<and> ((\<forall>pv \<in> set phs. CHR ''$'' \<notin> set (snd pv)) \<longrightarrow>
           applyPlaceholders phs t = foldl (\<lambda>cmd (p, v). replaceEvery p v cmd) t phs)
     \<and> getFinalCommandToRunCodeFile root (Some f) t b =
           Inr (if applyPlaceholders phs t \<noteq> t then applyPlaceholders phs t
                else t @ (if b then '' '' @ quoteFileName f else []))"
proof
  assume p: "placeholders root f = Inr phs"
  have "sepThenDot f" using p placeholders_succeed_iff by blast
  from placeholders_shape[OF this, of root] p
  have names: "map fst phs = [''$workspaceRoot'', ''$fileNameWithoutExt'', ''$fullFileName'',
                    ''$fileName'', ''$dirWithoutTrailingSlash'', ''$dir'']"
    by auto
  then have ne: "\<forall>pv \<in> set phs. fst pv \<noteq> []"
    by (metis (no_types, lifting) image_eqI list.set_map list.distinct(1) set_ConsD empty_iff
        empty_set)
  have 1: "applyPlaceholders phs t = foldl (\<lambda>cmd (p, v). substEvery p v [] cmd) t phs"
    using ne by (rule applyPlaceholders_substEvery)
  have 2: "(\<forall>pv \<in> set phs. CHR ''$'' \<notin> set (snd pv)) \<longrightarrow>
           applyPlaceholders phs t = foldl (\<lambda>cmd (p, v). replaceEvery p v cmd) t phs"
    using ne applyPlaceholders_replaceEvery by blast
  show "map fst phs = [''$workspaceRoot'', ''$fileNameWithoutExt'', ''$fullFileName'', ''$fileName'',
                    ''$dirWithoutTrailingSlash'', ''$dir'']
     \<and> applyPlaceholders phs t = foldl (\<lambda>cmd (p, v). substEvery p v [] cmd) t phs
     \<and> ((\<forall>pv \<in> set phs. CHR ''$'' \<notin> set (snd pv)) \<longrightarrow>
           applyPlaceholders phs t = foldl (\<lambda>cmd (p, v). replaceEvery p v cmd) t phs)
     \<and> getFinalCommandToRunCodeFile root (Some f) t b =
           Inr (if applyPlaceholders phs t \<noteq> t then applyPlaceholders phs t
                else t @ (if b then '' '' @ quoteFileName f else []))"
    using names 1 2 getFinalCommand_built[OF p] by blast
qed

text \<open>
  Claim C3, as amended. Let the path helpers succeed on the code file. For a template
  in which none of the six placeholders occurs, the final command is the template, a
  space and the quoted code file when \<open>appendFile\<close> is true, and the template when it
  is false. For a template in which \<open>$fileName\<close> occurs and none of the other five,
  and a code file without dollar, the final command is the substituted text, which
  differs from the template, whether \<open>appendFile\<close> is true or false.
\<close>

theorem final_command_append_rule:
  "placeholders root f = Inr phs \<longrightarrow>
     ((indexOf t ''$workspaceRoot'' = - 1 \<and> indexOf t ''$fileNameWithoutExt'' = - 1
       \<and> indexOf t ''$fullFileName'' = - 1 \<and> indexOf t ''$fileName'' = - 1
       \<and> indexOf t ''$dirWithoutTrailingSlash'' = - 1 \<and> indexOf t ''$dir'' = - 1 \<longrightarrow>
         getFinalCommandToRunCodeFile root (Some f) t True = Inr (t @ '' '' @ quoteFileName f)
         \<and> getFinalCommandToRunCodeFile root (Some f) t False = Inr t)
      \<and> (indexOf t ''$fileName'' > - 1
          \<and> indexOf t ''$workspaceRoot'' = - 1 \<and> indexOf t ''$fileNameWithoutExt'' = - 1
          \<and> indexOf t ''$fullFileName'' = - 1
          \<and> indexOf t ''$dirWithoutTrailingSlash'' = - 1 \<and> indexOf t ''$dir'' = - 1
          \<and> CHR ''$'' \<notin> set f \<longrightarrow>
         getFinalCommandToRunCodeFile root (Some f) t True = Inr (applyPlaceholders phs t)
         \<and> getFinalCommandToRunCodeFile root (Some f) t False = Inr (applyPlaceholders phs t)
         \<and> applyPlaceholders phs t \<noteq> t))"
proof
  assume p: "placeholders root f = Inr phs"
  have std: "sepThenDot f" using p placeholders_succeed_iff by blast
  from placeholders_shape[OF std, of root] p
  obtain d stem base where sub: "set d \<subseteq> set f" "set stem \<subseteq> set f" "set base \<subseteq> set f"
    and phs: "phs = [(''$workspaceRoot'', getWorkspaceRoot root d),
                     (''$fileNameWithoutExt'', stem),
                     (''$fullFileName'', quoteFileName f),
                     (''$fileName'', base),
                     (''$dirWithoutTrailingSlash'',
                        quoteFileName (replaceFirst rxTrailingSlash (Template []) d)),
                     (''$dir'', quoteFileName d)]"
    by auto
  have same: "indexOf s q = - 1 \<Longrightarrow> q \<noteq> [] \<Longrightarrow> replaceAll (literal q) (Template v) s = s" for s q v
    by (simp add: replaceAll_literal substEvery_unchanged)
  have a: "getFinalCommandToRunCodeFile root (Some f) t True = Inr (t @ '' '' @ quoteFileName f)
         \<and> getFinalCommandToRunCodeFile root (Some f) t False = Inr t"
    if "indexOf t ''$workspaceRoot'' = - 1 \<and> indexOf t ''$fileNameWithoutExt'' = - 1
       \<and> indexOf t ''$fullFileName'' = - 1 \<and> indexOf t ''$fileName'' = - 1
       \<and> indexOf t ''$dirWithoutTrailingSlash'' = - 1 \<and> indexOf t ''$dir'' = - 1"
  proof -
    have "applyPlaceholders phs t = t"
      unfolding phs applyPlaceholders_six using that by (simp add: same)
    then show ?thesis using getFinalCommand_built[OF p] by simp
  qed
  have b: "getFinalCommandToRunCodeFile root (Some f) t True = Inr (applyPlaceholders phs t)
         \<and> getFinalCommandToRunCodeFile root (Some f) t False = Inr (applyPlaceholders phs t)
         \<and> applyPlaceholders phs t \<noteq> t"
    if h: "indexOf t ''$fileName'' > - 1
          \<and> indexOf t ''$workspaceRoot'' = - 1 \<and> indexOf t ''$fileNameWithoutExt'' = - 1
          \<and> indexOf t ''$fullFileName'' = - 1
          \<and> indexOf t ''$dirWithoutTrailingSlash'' = - 1 \<and> indexOf t ''$dir'' = - 1
          \<and> CHR ''$'' \<notin> set f"
  proof -
    let ?qd = "quoteFileName (replaceFirst rxTrailingSlash (Template []) d)"
    have nb: "CHR ''$'' \<notin> set base" using sub h by blast
    have nq: "CHR ''$'' \<notin> set ?qd"
      using set_replaceFirst_empty[of rxTrailingSlash d] sub h by (intro no_dollar_quote) blast
    have nd: "CHR ''$'' \<notin> set (quoteFileName d)" using sub h by (intro no_dollar_quote) blast
    let ?c4 = "replaceEvery ''$fileName'' base t"
    let ?c5 = "replaceEvery ''$dirWithoutTrailingSlash'' ?qd ?c4"
    let ?c6 = "replaceEvery ''$dir'' (quoteFileName d) ?c5"
    have plain: "replaceAll (literal q) (Template v) s = replaceEvery q v s"
      if "q \<noteq> []" "CHR ''$'' \<notin> set v" for q v s
      using that by (simp add: replaceAll_literal_plain getSubstitution_noDollar)
    have ap: "applyPlaceholders phs t = ?c6"
      unfolding phs applyPlaceholders_six using h nb nq nd by (simp add: same plain)
    have "indexOf t ''$fileName'' \<noteq> - 1" using h indexOf_found by blast
    moreover have "dollars ''$fileName'' > 0" by (simp add: dollars_def)
    ultimately have "dollars ?c4 < dollars t" using dollars_replaceEvery[OF nb] by blast
    moreover have "dollars ?c5 \<le> dollars ?c4" using dollars_replaceEvery[OF nq] by blast
    moreover have "dollars ?c6 \<le> dollars ?c5" using dollars_replaceEvery[OF nd] by blast
    ultimately have "dollars ?c6 < dollars t" by linarith
    then have "applyPlaceholders phs t \<noteq> t" unfolding ap by auto
    then show ?thesis using getFinalCommand_built[OF p] by simp
  qed
  show "(indexOf t ''$workspaceRoot'' = - 1 \<and> indexOf t ''$fileNameWithoutExt'' = - 1
       \<and> indexOf t ''$fullFileName'' = - 1 \<and> indexOf t ''$fileName'' = - 1
       \<and> indexOf t ''$dirWithoutTrailingSlash'' = - 1 \<and> indexOf t ''$dir'' = - 1 \<longrightarrow>
         getFinalCommandToRunCodeFile root (Some f) t True = Inr (t @ '' '' @ quoteFileName f)
         \<and> getFinalCommandToRunCodeFile root (Some f) t False = Inr t)
      \<and> (indexOf t ''$fileName'' > - 1
          \<and> indexOf t ''$workspaceRoot'' = - 1 \<and> indexOf t ''$fileNameWithoutExt'' = - 1
          \<and> indexOf t ''$fullFileName'' = - 1
          \<and> indexOf t ''$dirWithoutTrailingSlash'' = - 1 \<and> indexOf t ''$dir'' = - 1
          \<and> CHR ''$'' \<notin> set f \<longrightarrow>
         getFinalCommandToRunCodeFile root (Some f) t True = Inr (applyPlaceholders phs t)
         \<and> getFinalCommandToRunCodeFile root (Some f) t False = Inr (applyPlaceholders phs t)
         \<and> applyPlaceholders phs t \<noteq> t)"
    using a b by blast
qed

text \<open>The theorem on a template with three placeholders, one of them twice.\<close>

theorem placeholders_replaced_in_order_witness:
  "getFinalCommandToRunCodeFile None (Some ''/home/u/a.py'')
       ''cd $dir && python $fileName $fileName'' True
     = Inr (''cd '' @ quoteFileName ''/home/u/'' @ '' && python a.py a.py'')"
proof -
  let ?phs = "[(''$workspaceRoot'', ''/home/u/''),
          (''$fileNameWithoutExt'', ''a''),
          (''$fullFileName'', quoteFileName ''/home/u/a.py''),
          (''$fileName'', ''a.py''),
          (''$dirWithoutTrailingSlash'', quoteFileName ''/home/u''),
          (''$dir'', quoteFileName ''/home/u/'')]"
  let ?t = "''cd $dir && python $fileName $fileName''"
  note t = placeholders_replaced_in_order[of None "''/home/u/a.py''" ?phs ?t True]
  have plain: "\<forall>pv \<in> set ?phs. CHR ''$'' \<notin> set (snd pv)" by (simp add: quoteFileName_def)
  have "applyPlaceholders ?phs ?t = foldl (\<lambda>cmd (p, v). replaceEvery p v cmd) ?t ?phs"
    using t example_placeholders plain by blast
  then have a: "applyPlaceholders ?phs ?t = ''cd '' @ quoteFileName ''/home/u/'' @ '' && python a.py a.py''"
    by (simp add: quoteFileName_def)
  have "getFinalCommandToRunCodeFile None (Some ''/home/u/a.py'') ?t True =
           Inr (if applyPlaceholders ?phs ?t \<noteq> ?t then applyPlaceholders ?phs ?t
                else ?t @ (if True then '' '' @ quoteFileName ''/home/u/a.py'' else []))"
    using t example_placeholders by blast
  then show ?thesis unfolding a by (simp add: quoteFileName_def)
qed

text \<open>
  Claim C1 as stated fails for the template \<open>$fileNameWithoutExt\<close> and the code file
  \<open>/a/b.c\<close>: in the order of the source the result is \<open>b\<close>, in the reverse order
  \<open>$fileName\<close> is replaced first and the result is \<open>b.cWithoutExt\<close>.
\<close>

theorem placeholder_order_counterexample:
  "map_sum id (\<lambda>phs. (applyPlaceholders phs ''$fileNameWithoutExt'',
                       applyPlaceholders (rev phs) ''$fileNameWithoutExt''))
     (placeholders None ''/a/b.c'') = Inr (''b'', ''b.cWithoutExt'')"
proof -
  have p: "placeholders None ''/a/b.c'' =
     Inr [(''$workspaceRoot'', ''/a/''),
          (''$fileNameWithoutExt'', ''b''),
          (''$fullFileName'', quoteFileName ''/a/b.c''),
          (''$fileName'', ''b.c''),
          (''$dirWithoutTrailingSlash'', quoteFileName ''/a''),
          (''$dir'', quoteFileName ''/a/'')]"
    by (simp add: placeholders_def getCodeFileDir_def getCodeFileWithoutDirAndExt_def
      getCodeBaseFile_def getCodeFileDirWithoutTrailingSlash_def getWorkspaceRoot_def eval_regex)
  show ?thesis
    unfolding p
    by (simp add: applyPlaceholders_def replaceAll_literal_plain getSubstitution_noDollar
        quoteFileName_def)
qed

text \<open>The theorem on a template without placeholder and on one with \<open>$fileName\<close>.\<close>

theorem final_command_append_rule_witness:
  "getFinalCommandToRunCodeFile None (Some ''/home/u/a.py'') ''python -u'' True
     = Inr (''python -u '' @ quoteFileName ''/home/u/a.py'')
   \<and> getFinalCommandToRunCodeFile None (Some ''/home/u/a.py'') ''python -u'' False = Inr ''python -u''
   \<and> getFinalCommandToRunCodeFile None (Some ''/home/u/a.py'') ''python $fileName'' True
     = Inr ''python a.py''
   \<and> getFinalCommandToRunCodeFile None (Some ''/home/u/a.py'') ''python $fileName'' False
     = Inr ''python a.py''"
proof -
  let ?phs = "[(''$workspaceRoot'', ''/home/u/''),
          (''$fileNameWithoutExt'', ''a''),
          (''$fullFileName'', quoteFileName ''/home/u/a.py''),
          (''$fileName'', ''a.py''),
          (''$dirWithoutTrailingSlash'', quoteFileName ''/home/u''),
          (''$dir'', quoteFileName ''/home/u/'')]"
  note t1 = final_command_append_rule[of None "''/home/u/a.py''" ?phs "''python -u''"]
  note t2 = final_command_append_rule[of None "''/home/u/a.py''" ?phs "''python $fileName''"]
  have h1: "indexOf ''python -u'' ''$workspaceRoot'' = - 1
       \<and> indexOf ''python -u'' ''$fileNameWithoutExt'' = - 1
       \<and> indexOf ''python -u'' ''$fullFileName'' = - 1 \<and> indexOf ''python -u'' ''$fileName'' = - 1
       \<and> indexOf ''python -u'' ''$dirWithoutTrailingSlash'' = - 1
       \<and> indexOf ''python -u'' ''$dir'' = - 1"
    by (simp add: indexOf_def)
  have h2: "indexOf ''python $fileName'' ''$fileName'' > - 1
          \<and> indexOf ''python $fileName'' ''$workspaceRoot'' = - 1
          \<and> indexOf ''python $fileName'' ''$fileNameWithoutExt'' = - 1
          \<and> indexOf ''python $fileName'' ''$fullFileName'' = - 1
          \<and> indexOf ''python $fileName'' ''$dirWithoutTrailingSlash'' = - 1
          \<and> indexOf ''python $fileName'' ''$dir'' = - 1
          \<and> CHR ''$'' \<notin> set ''/home/u/a.py''"
    by (simp add: indexOf_def)
  have a: "applyPlaceholders ?phs ''python $fileName'' = ''python a.py''"
    by (simp add: applyPlaceholders_def replaceAll_literal_plain getSubstitution_noDollar
        quoteFileName_def)
  have 1: "getFinalCommandToRunCodeFile None (Some ''/home/u/a.py'') ''python -u'' True
             = Inr (''python -u '' @ quoteFileName ''/home/u/a.py'')
         \<and> getFinalCommandToRunCodeFile None (Some ''/home/u/a.py'') ''python -u'' False = Inr ''python -u''"
    using t1 example_placeholders h1 by (simp only: append.simps)
  have 2: "getFinalCommandToRunCodeFile None (Some ''/home/u/a.py'') ''python $fileName'' True
             = Inr (applyPlaceholders ?phs ''python $fileName'')
         \<and> getFinalCommandToRunCodeFile None (Some ''/home/u/a.py'') ''python $fileName'' False
             = Inr (applyPlaceholders ?phs ''python $fileName'')"
    using t2 example_placeholders h2 by blast
  show ?thesis using 1 2 unfolding a by simp
qed

text \<open>
  Claim C3 as stated fails for the template \<open>run $fileName\<close> and a code file whose
  base name is the text \<open>$fileName\<close>: the substituted text equals the template, so the
  builder appends the file when \<open>appendFile\<close> is true and not when it is false.
\<close>

theorem substituted_text_is_the_template_counterexample:
  "getFinalCommandToRunCodeFile None (Some ''/a.b/$fileName'') ''run $fileName'' True
     = Inr (''run $fileName '' @ quoteFileName ''/a.b/$fileName'')
   \<and> getFinalCommandToRunCodeFile None (Some ''/a.b/$fileName'') ''run $fileName'' False
     = Inr ''run $fileName''"
proof -
  have p: "placeholders None ''/a.b/$fileName'' =
     Inr [(''$workspaceRoot'', ''/a.b/''),
          (''$fileNameWithoutExt'', ''a''),
          (''$fullFileName'', quoteFileName ''/a.b/$fileName''),
          (''$fileName'', ''$fileName''),
          (''$dirWithoutTrailingSlash'', quoteFileName ''/a.b''),
          (''$dir'', quoteFileName ''/a.b/'')]"
    by (simp add: placeholders_def getCodeFileDir_def getCodeFileWithoutDirAndExt_def
      getCodeBaseFile_def getCodeFileDirWithoutTrailingSlash_def getWorkspaceRoot_def eval_regex)
  have g: "getSubstitution m pre post [] ''$fileName'' = ''$fileName''" for m pre post
    by (simp add: isDigit_def)
  have a: "applyPlaceholders [(''$workspaceRoot'', ''/a.b/''),
          (''$fileNameWithoutExt'', ''a''),
          (''$fullFileName'', quoteFileName ''/a.b/$fileName''),
          (''$fileName'', ''$fileName''),
          (''$dirWithoutTrailingSlash'', quoteFileName ''/a.b''),
          (''$dir'', quoteFileName ''/a.b/'')] ''run $fileName'' = ''run $fileName''"
    unfolding applyPlaceholders_six
    by (simp add: replaceAll_literal substEvery.simps g isDigit_def quoteFileName_def)
  show ?thesis
    using getFinalCommand_built[OF p, of "''run $fileName''"] unfolding a by simp
qed

end
